theory Spec2Isabelle
  imports Main "HOL-Library.Word"
begin

unbundle bit_operations_syntax

section \<open>Common types\<close>

type_synonym byte = "8 word"
type_synonym bytes = "8 word list"
type_synonym u32 = "32 word"
type_synonym u64 = "64 word"

section \<open>Cross-chain dispatcher (native/service/cross\_chain\_manager/entrance.go)\<close>

text \<open>
  \<^verbatim>\<open>utils.BYTE_FALSE\<close> and \<^verbatim>\<open>utils.BYTE_TRUE\<close>, the two byte strings an entry point of the
  native contract returns.
\<close>

definition BYTE_FALSE :: bytes where
  "BYTE_FALSE = [0]"

definition BYTE_TRUE :: bytes where
  "BYTE_TRUE = [1]"

text \<open>
  The chain identifiers \<^verbatim>\<open>utils.BTC_CHAIN_ID\<close>, \<^verbatim>\<open>utils.ETH_CHAIN_ID\<close>,
  \<^verbatim>\<open>utils.ONT_CHAIN_ID\<close> and \<^verbatim>\<open>utils.NEO_CHAIN_ID\<close> are declared in package utils,
  outside the sources at hand; they are parameters of the model.
\<close>

record chain_ids =
  BTC_CHAIN_ID :: u64
  ETH_CHAIN_ID :: u64
  ONT_CHAIN_ID :: u64
  NEO_CHAIN_ID :: u64

record EntranceParam =
  SourceChainID :: u64
  Height :: u32
  Proof :: bytes
  RelayerAddress :: bytes
  TargetChainID :: u64
  TxData :: bytes
  Value :: bytes

text \<open>The deposit proposal a source handler derives from a proof (\<^verbatim>\<open>MakeTxParam\<close>).\<close>

record MakeTxParam =
  TxHash :: bytes
  FromContractAddress :: bytes
  ToChainID :: u64
  ToContractAddress :: bytes
  Method :: bytes
  Args :: bytes

record SideChain =
  ChainId :: u64
  Name :: bytes

text \<open>The four implementations of the interface \<^verbatim>\<open>crosscommon.ChainHandler\<close>.\<close>

datatype ChainHandler = BTCHandler | ETHHandler | ONTHandler | NEOHandler

text \<open>
  The error of \<^verbatim>\<open>GetChainHandler\<close>, and the errors of the dispatcher, one constructor per
  \<^verbatim>\<open>return utils.BYTE_FALSE, ...\<close> of the source; \<open>'e\<close> is the error value of a
  collaborator, passed on or wrapped.
\<close>

datatype chain_error = NotSupportedChainId u64

datatype 'e entrance_error =
    ParamsDeserializeError 'e
  | GetSideChainError 'e
  | SideChainNotRegistered
  | TargetChainNotRegistered
  | ChainHandlerError chain_error
  | HandlerError 'e

text \<open>
  The calls \<^verbatim>\<open>ImportExTransfer\<close> makes to its collaborators, in program order. The log
  is an observation added to the model so that "which handler was invoked, and with what"
  can be stated; it does not influence the result.
\<close>

datatype call =
    CallGetSideChain u64
  | CallGetChainHandler u64
  | CallMakeDepositProposal ChainHandler
  | CallMakeTransaction ChainHandler MakeTxParam

text \<open>
  The collaborators of the dispatcher, none of them part of the sources at hand:
  the decoder of the contract input, \<^verbatim>\<open>side_chain_manager.GetSideChain\<close>, and the two
  methods of a chain handler. \<open>'n\<close> is the state behind \<^verbatim>\<open>*native.NativeService\<close>, which
  the handler methods may update in place: they return the state they leave.
\<close>

record ('n, 'e) entrance_env =
  ids :: chain_ids
  ParamsDeserialization :: "'n \<Rightarrow> 'e + EntranceParam"
  GetSideChain :: "'n \<Rightarrow> u64 \<Rightarrow> 'e + SideChain"
  MakeDepositProposal :: "ChainHandler \<Rightarrow> 'n \<Rightarrow> 'n \<times> ('e + MakeTxParam)"
  MakeTransaction :: "ChainHandler \<Rightarrow> 'n \<Rightarrow> MakeTxParam \<Rightarrow> 'n \<times> 'e option"

text \<open>\<^verbatim>\<open>GetChainHandler\<close>: the \<^verbatim>\<open>switch\<close>, in the order of its cases.\<close>

definition GetChainHandler :: "chain_ids \<Rightarrow> u64 \<Rightarrow> chain_error + ChainHandler" where
  "GetChainHandler c chainid =
     (if chainid = BTC_CHAIN_ID c then Inr BTCHandler
      else if chainid = ETH_CHAIN_ID c then Inr ETHHandler
      else if chainid = ONT_CHAIN_ID c then Inr ONTHandler
      else if chainid = NEO_CHAIN_ID c then Inr NEOHandler
      else Inl (NotSupportedChainId chainid))"

text \<open>What an entry point returns: the bytes, the error (if any), the state left, the log.\<close>

record ('n, 'e) outcome =
  ret :: bytes
  err :: "'e entrance_error option"
  native :: 'n
  calls :: "call list"

definition failed :: "'e entrance_error \<Rightarrow> 'n \<Rightarrow> call list \<Rightarrow> ('n, 'e) outcome" where
  "failed e n cs = \<lparr>ret = BYTE_FALSE, err = Some e, native = n, calls = cs\<rparr>"

definition succeeded :: "'n \<Rightarrow> call list \<Rightarrow> ('n, 'e) outcome" where
  "succeeded n cs = \<lparr>ret = BYTE_TRUE, err = None, native = n, calls = cs\<rparr>"

text \<open>
  The tail shared by \<^verbatim>\<open>ImportExTransfer\<close> (lines 84-105) and \<^verbatim>\<open>Vote\<close> (lines 123-144):
  check the registration of the proposal's target chain, resolve its handler, call
  \<^verbatim>\<open>MakeTransaction\<close>.
\<close>

definition makeTargetChainTx ::
  "('n, 'e) entrance_env \<Rightarrow> 'n \<Rightarrow> call list \<Rightarrow> MakeTxParam \<Rightarrow> ('n, 'e) outcome" where
  "makeTargetChainTx env n cs txParam =
     (let targetid = ToChainID txParam;
          cs1 = cs @ [CallGetSideChain targetid]
      in case GetSideChain env n targetid of
           Inl e \<Rightarrow> failed (GetSideChainError e) n cs1
         | Inr sideChain \<Rightarrow>
             if ChainId sideChain \<noteq> targetid then failed TargetChainNotRegistered n cs1
             else
               (let cs2 = cs1 @ [CallGetChainHandler targetid]
                in case GetChainHandler (ids env) targetid of
                     Inl e \<Rightarrow> failed (ChainHandlerError e) n cs2
                   | Inr targetHandler \<Rightarrow>
                       (let cs3 = cs2 @ [CallMakeTransaction targetHandler txParam]
                        in case MakeTransaction env targetHandler n txParam of
                             (n', Some e) \<Rightarrow> failed (HandlerError e) n' cs3
                           | (n', None) \<Rightarrow> succeeded n' cs3)))"

definition ImportExTransfer :: "('n, 'e) entrance_env \<Rightarrow> 'n \<Rightarrow> ('n, 'e) outcome" where
  "ImportExTransfer env n =
     (case ParamsDeserialization env n of
        Inl e \<Rightarrow> failed (ParamsDeserializeError e) n []
      | Inr params \<Rightarrow>
          (let chainID = SourceChainID params;
               cs1 = [CallGetSideChain chainID]
           in case GetSideChain env n chainID of
                Inl e \<Rightarrow> failed (GetSideChainError e) n cs1
              | Inr sideChain \<Rightarrow>
                  if ChainId sideChain \<noteq> chainID then failed SideChainNotRegistered n cs1
                  else
                    (let cs2 = cs1 @ [CallGetChainHandler chainID]
                     in case GetChainHandler (ids env) chainID of
                          Inl e \<Rightarrow> failed (ChainHandlerError e) n cs2
                        | Inr handler \<Rightarrow>
                            (let cs3 = cs2 @ [CallMakeDepositProposal handler]
                             in if chainID = 2 \<or> chainID = 3 then
                                  (case MakeDepositProposal env handler n of
                                     (n', Inl e) \<Rightarrow> failed (HandlerError e) n' cs3
                                   | (n', Inr txParam) \<Rightarrow> makeTargetChainTx env n' cs3 txParam)
                                else
                                  (case MakeDepositProposal env handler n of
                                     (n', Inl e) \<Rightarrow> failed (HandlerError e) n' cs3
                                   | (n', Inr _) \<Rightarrow> succeeded n' cs3)))))"

text \<open>
  A chain is registered when \<^verbatim>\<open>GetSideChain\<close> returns a record and the record carries the
  chain identifier asked for: the two checks \<^verbatim>\<open>ImportExTransfer\<close> makes.
\<close>

definition registered_chain :: "('n, 'e) entrance_env \<Rightarrow> 'n \<Rightarrow> u64 \<Rightarrow> bool" where
  "registered_chain env n c =
     (case GetSideChain env n c of Inl _ \<Rightarrow> False | Inr sideChain \<Rightarrow> ChainId sideChain = c)"

text \<open>
  A concrete set of collaborators, for evaluating the dispatcher on explicit inputs:
  chain identifiers 1 to 4, a registry that knows exactly the chains listed in the state,
  a source handler that reads the proposal off the input, and a target handler that
  appends the proposal to the state's queue of outgoing transactions.
\<close>

definition std_chain_ids :: chain_ids where
  "std_chain_ids = \<lparr>BTC_CHAIN_ID = 1, ETH_CHAIN_ID = 2, ONT_CHAIN_ID = 3, NEO_CHAIN_ID = 4\<rparr>"

record relay_state =
  input_param :: "EntranceParam option"
  registered :: "u64 list"
  proven :: "MakeTxParam option"
  outgoing :: "(ChainHandler \<times> MakeTxParam) list"

datatype relay_error = MalformedInput | NoSideChain | ProofVerificationFailed

definition relay_env :: "(relay_state, relay_error) entrance_env" where
  "relay_env =
     \<lparr>ids = std_chain_ids,
      ParamsDeserialization =
        (\<lambda>n. case input_param n of None \<Rightarrow> Inl MalformedInput | Some p \<Rightarrow> Inr p),
      GetSideChain =
        (\<lambda>n c. if c \<in> set (registered n) then Inr \<lparr>ChainId = c, Name = []\<rparr> else Inl NoSideChain),
      MakeDepositProposal =
        (\<lambda>h n. case proven n of None \<Rightarrow> (n, Inl ProofVerificationFailed) | Some p \<Rightarrow> (n, Inr p)),
      MakeTransaction =
        (\<lambda>h n p. (n\<lparr>outgoing := outgoing n @ [(h, p)]\<rparr>, None))\<rparr>"

definition neo_param :: EntranceParam where
  "neo_param =
     \<lparr>SourceChainID = 4, Height = 7, Proof = [], RelayerAddress = [], TargetChainID = 9,
      TxData = [], Value = []\<rparr>"

definition neo_proposal :: MakeTxParam where
  "neo_proposal =
     \<lparr>TxHash = [], FromContractAddress = [], ToChainID = 9, ToContractAddress = [],
      Method = [], Args = []\<rparr>"

definition neo_state :: relay_state where
  "neo_state =
     \<lparr>input_param = Some neo_param, registered = [4], proven = Some neo_proposal, outgoing = []\<rparr>"

definition unregistered_state :: relay_state where
  "unregistered_state =
     \<lparr>input_param = Some neo_param, registered = [1, 2], proven = Some neo_proposal, outgoing = []\<rparr>"

definition eth_param :: EntranceParam where
  "eth_param =
     \<lparr>SourceChainID = 2, Height = 7, Proof = [], RelayerAddress = [], TargetChainID = 3,
      TxData = [], Value = []\<rparr>"

definition eth_proposal :: MakeTxParam where
  "eth_proposal =
     \<lparr>TxHash = [], FromContractAddress = [], ToChainID = 3, ToContractAddress = [],
      Method = [], Args = [10]\<rparr>"

definition eth_state :: relay_state where
  "eth_state =
     \<lparr>input_param = Some eth_param, registered = [2, 3], proven = Some eth_proposal, outgoing = []\<rparr>"

section \<open>Header synchronisation of the ONT handler (package ont, \<^verbatim>\<open>SyncBlockHeader\<close>)\<close>

text \<open>
  The fields of \<^verbatim>\<open>otypes.Header\<close> that header synchronisation reads. \<open>Height_hdr\<close> is the
  field \<^verbatim>\<open>Height\<close> (the name is taken by \<^verbatim>\<open>EntranceParam\<close>).
\<close>

record OntHeader =
  ShardID :: u64
  Height_hdr :: u32
  ConsensusPayload :: bytes
  SigData :: "bytes list"

record SyncBlockHeaderParam =
  Address :: bytes
  Headers :: "bytes list"

text \<open>
  One constructor per \<^verbatim>\<open>return fmt.Errorf(...)\<close> of \<^verbatim>\<open>SyncBlockHeader\<close>; \<open>DuplicateHeader\<close>
  is the error of line 89, returned when a header is found at the shard and height.
\<close>

datatype 'e sync_error =
    SyncParamsDeserializeError 'e
  | HeaderFromRawBytesError 'e
  | DuplicateHeader u64 u32
  | VerifyHeaderError 'e
  | PutBlockHeaderError 'e
  | UpdateConsensusPeerError 'e

text \<open>
  The collaborators of \<^verbatim>\<open>SyncBlockHeader\<close>, none of them part of the sources at hand. The
  lookups \<^verbatim>\<open>GetHeaderByHeight\<close> and \<^verbatim>\<open>verifyHeader\<close> read the state \<open>'n\<close> behind
  \<^verbatim>\<open>*native.NativeService\<close>; \<^verbatim>\<open>PutBlockHeader\<close> and \<^verbatim>\<open>UpdateConsensusPeer\<close> update it in
  place and return the state they leave, also when they fail.
\<close>

record ('n, 'e) sync_env =
  SyncParamDeserialization :: "'n \<Rightarrow> 'e + SyncBlockHeaderParam"
  HeaderFromRawBytes :: "bytes \<Rightarrow> 'e + OntHeader"
  GetHeaderByHeight :: "'n \<Rightarrow> u64 \<Rightarrow> u32 \<Rightarrow> 'e + OntHeader"
  verifyHeader :: "'n \<Rightarrow> OntHeader \<Rightarrow> 'e option"
  PutBlockHeader :: "'n \<Rightarrow> OntHeader \<Rightarrow> 'n \<times> 'e option"
  UpdateConsensusPeer :: "'n \<Rightarrow> OntHeader \<Rightarrow> bytes \<Rightarrow> 'n \<times> 'e option"

text \<open>
  The loop \<^verbatim>\<open>for _, v := range params.Headers\<close> (lines 82-103). Line 88 tests
  \<^verbatim>\<open>err == nil\<close> only: every error of the lookup, whatever its cause, lets the header
  through to verification.
\<close>

fun syncHeaders ::
  "('n, 'e) sync_env \<Rightarrow> bytes \<Rightarrow> 'n \<Rightarrow> bytes list \<Rightarrow> 'n \<times> 'e sync_error option" where
  "syncHeaders env addr n [] = (n, None)"
| "syncHeaders env addr n (v # vs) =
     (case HeaderFromRawBytes env v of
        Inl e \<Rightarrow> (n, Some (HeaderFromRawBytesError e))
      | Inr header \<Rightarrow>
          (case GetHeaderByHeight env n (ShardID header) (Height_hdr header) of
             Inr _ \<Rightarrow> (n, Some (DuplicateHeader (ShardID header) (Height_hdr header)))
           | Inl _ \<Rightarrow>
               (case verifyHeader env n header of
                  Some e \<Rightarrow> (n, Some (VerifyHeaderError e))
                | None \<Rightarrow>
                    (case PutBlockHeader env n header of
                       (n1, Some e) \<Rightarrow> (n1, Some (PutBlockHeaderError e))
                     | (n1, None) \<Rightarrow>
                         (case UpdateConsensusPeer env n1 header addr of
                            (n2, Some e) \<Rightarrow> (n2, Some (UpdateConsensusPeerError e))
                          | (n2, None) \<Rightarrow> syncHeaders env addr n2 vs)))))"

definition SyncBlockHeader :: "('n, 'e) sync_env \<Rightarrow> 'n \<Rightarrow> 'n \<times> 'e sync_error option" where
  "SyncBlockHeader env n =
     (case SyncParamDeserialization env n of
        Inl e \<Rightarrow> (n, Some (SyncParamsDeserializeError e))
      | Inr params \<Rightarrow> syncHeaders env (Address params) n (Headers params))"

text \<open>
  The errors after which the submitted header has been neither stored nor applied to the
  peer set: decoding, duplicate and verification failures.
\<close>

definition rejected_before_store :: "'e sync_error \<Rightarrow> bool" where
  "rejected_before_store e =
     (case e of HeaderFromRawBytesError _ \<Rightarrow> True | DuplicateHeader _ _ \<Rightarrow> True
      | VerifyHeaderError _ \<Rightarrow> True | _ \<Rightarrow> False)"

text \<open>
  What the lookup of the header at chain \<open>c\<close> and height \<open>h\<close> needs from the two
  collaborators that write: storing a header of another chain or height, and updating the
  peer sets, do not change its result.
\<close>

definition lookup_framed :: "('n, 'e) sync_env \<Rightarrow> u64 \<Rightarrow> u32 \<Rightarrow> bool" where
  "lookup_framed env c h \<longleftrightarrow>
     (\<forall>n hdr. (ShardID hdr, Height_hdr hdr) \<noteq> (c, h) \<longrightarrow>
        GetHeaderByHeight env (fst (PutBlockHeader env n hdr)) c h = GetHeaderByHeight env n c h)
     \<and> (\<forall>n hdr addr.
        GetHeaderByHeight env (fst (UpdateConsensusPeer env n hdr addr)) c h =
        GetHeaderByHeight env n c h)"

subsection \<open>A header registry to run the handler on\<close>

text \<open>
  Modelled from the spec: the state and the collaborators of header synchronisation
  (\<^verbatim>\<open>GetHeaderByHeight\<close>, \<^verbatim>\<open>verifyHeader\<close>, \<^verbatim>\<open>PutBlockHeader\<close>, \<^verbatim>\<open>UpdateConsensusPeer\<close> and the
  decoders), which are not part of the sources at hand. Headers are stored by chain and
  height; the peer-set history is a list of (chain, height, key) entries, appended to on
  a rotation; the set in force at a height is the latest entry at or below it. A header
  verifies when its signature data is the key in force at the previous height. A header
  with an empty consensus payload rotates nothing, a one-byte payload is the new key, any
  other payload is malformed. \<open>lookup_fault\<close> makes the header lookup fail with a storage
  error.
\<close>

datatype registry_error =
  NotFound | StorageIO | MalformedParams | MalformedHeader | NoPeerSet | BadSignature
  | MalformedPayload

record registry =
  sync_input :: "SyncBlockHeaderParam option"
  stored_headers :: "(u64 \<times> u32) \<rightharpoonup> OntHeader"
  peer_sets :: "(u64 \<times> u32 \<times> bytes) list"
  lookup_fault :: bool

fun peer_set_at :: "(u64 \<times> u32 \<times> bytes) list \<Rightarrow> u64 \<Rightarrow> u32 \<Rightarrow> bytes option" where
  "peer_set_at [] c h = None"
| "peer_set_at ((c', h', k) # ps) c h =
     (case peer_set_at ps c h of
        Some k' \<Rightarrow> Some k'
      | None \<Rightarrow> if c' = c \<and> h' \<le> h then Some k else None)"

definition decode_header :: "bytes \<Rightarrow> registry_error + OntHeader" where
  "decode_header v =
     (case v of
        s # h # g # p \<Rightarrow>
          Inr \<lparr>ShardID = ucast s, Height_hdr = ucast h, ConsensusPayload = p, SigData = [ [g] ]\<rparr>
      | _ \<Rightarrow> Inl MalformedHeader)"

definition registry_env :: "(registry, registry_error) sync_env" where
  "registry_env =
     \<lparr>SyncParamDeserialization =
        (\<lambda>n. case sync_input n of None \<Rightarrow> Inl MalformedParams | Some p \<Rightarrow> Inr p),
      HeaderFromRawBytes = decode_header,
      GetHeaderByHeight =
        (\<lambda>n c h. if lookup_fault n then Inl StorageIO
                 else case stored_headers n (c, h) of None \<Rightarrow> Inl NotFound | Some hdr \<Rightarrow> Inr hdr),
      verifyHeader =
        (\<lambda>n hdr. case peer_set_at (peer_sets n) (ShardID hdr) (Height_hdr hdr - 1) of
                  None \<Rightarrow> Some NoPeerSet
                | Some k \<Rightarrow> if SigData hdr = [k] then None else Some BadSignature),
      PutBlockHeader =
        (\<lambda>n hdr. (n\<lparr>stored_headers := (stored_headers n)((ShardID hdr, Height_hdr hdr) \<mapsto> hdr)\<rparr>,
                  None)),
      UpdateConsensusPeer =
        (\<lambda>n hdr addr.
           case ConsensusPayload hdr of
             [] \<Rightarrow> (n, None)
           | [k] \<Rightarrow> (n\<lparr>peer_sets := peer_sets n @ [(ShardID hdr, Height_hdr hdr, [k])]\<rparr>, None)
           | _ \<Rightarrow> (n, Some MalformedPayload))\<rparr>"

text \<open>
  Chain 3 synchronised up to height 5, with the key \<open>[7]\<close> in force since height 0. The
  raw headers: height 5 again; height 6 rotating the key to \<open>[8]\<close>; height 6 with a
  malformed payload; height 7 with a wrong signature; height 5 with another payload.
  \<open>registry_at6\<close> is the state after the header of height 6 has been accepted, and
  \<open>faulty_registry\<close> the state at height 5 with a failing header lookup.
\<close>

definition header5 :: OntHeader where
  "header5 = \<lparr>ShardID = 3, Height_hdr = 5, ConsensusPayload = [], SigData = [ [7] ]\<rparr>"

definition raw5 :: bytes where
  "raw5 = [3, 5, 7]"

definition raw6 :: bytes where
  "raw6 = [3, 6, 7, 8]"

definition raw6_malformed :: bytes where
  "raw6_malformed = [3, 6, 7, 8, 9]"

definition registry_at5 :: "bytes list \<Rightarrow> registry" where
  "registry_at5 vs =
     \<lparr>sync_input = Some \<lparr>Address = [], Headers = vs\<rparr>,
      stored_headers = [(3, 5) \<mapsto> header5],
      peer_sets = [(3, 0, [7])],
      lookup_fault = False\<rparr>"

definition raw7_unsigned :: bytes where
  "raw7_unsigned = [3, 7, 0]"

definition raw5_replacement :: bytes where
  "raw5_replacement = [3, 5, 7, 9]"

definition header6 :: OntHeader where
  "header6 = \<lparr>ShardID = 3, Height_hdr = 6, ConsensusPayload = [8], SigData = [ [7] ]\<rparr>"

definition registry_at6 :: "bytes list \<Rightarrow> registry" where
  "registry_at6 vs =
     \<lparr>sync_input = Some \<lparr>Address = [], Headers = vs\<rparr>,
      stored_headers = [(3, 5) \<mapsto> header5, (3, 6) \<mapsto> header6],
      peer_sets = [(3, 0, [7]), (3, 6, [8])],
      lookup_fault = False\<rparr>"

definition faulty_registry :: "bytes list \<Rightarrow> registry" where
  "faulty_registry vs = (registry_at5 vs)\<lparr>lookup_fault := True\<rparr>"

section \<open>Block store (package ledgerstore, \<^verbatim>\<open>BlockStore\<close>)\<close>

subsection \<open>Hashes and the primitives of the binary encoding\<close>

text \<open>
  Modelled from the spec: \<^verbatim>\<open>common.Uint256\<close>, the 32-byte hash, which package common
  declares outside the sources at hand. \<open>ToArray\<close> gives its bytes.
\<close>

typedef Uint256 = "{bs :: bytes. length bs = 32}"
  by (rule exI [of _ "replicate 32 0"]) simp

definition ToArray :: "Uint256 \<Rightarrow> bytes" where
  "ToArray h = Rep_Uint256 h"

text \<open>Two hashes are equal when their bytes are (the \<^verbatim>\<open>==\<close> of Go arrays).\<close>

instantiation Uint256 :: equal
begin

definition equal_Uint256 :: "Uint256 \<Rightarrow> Uint256 \<Rightarrow> bool" where
  "equal_Uint256 a b \<longleftrightarrow> ToArray a = ToArray b"

instance
  by standard (simp add: equal_Uint256_def ToArray_def Rep_Uint256_inject)

end

text \<open>Copying bytes into the array: the first 32 bytes, padded with zeros.\<close>

definition Uint256_of :: "bytes \<Rightarrow> Uint256" where
  "Uint256_of bs = Abs_Uint256 (take 32 (bs @ replicate 32 0))"

text \<open>
  Modelled from the spec: the readers and writers of packages common and serialization
  that the block store calls, with little-endian integers. A reader takes the unread
  bytes of the source and returns the value and the bytes that remain, or \<open>None\<close> at the
  end of the source.
\<close>

definition WriteUint32 :: "u32 \<Rightarrow> bytes" where
  "WriteUint32 w = [ucast w, ucast (drop_bit 8 w), ucast (drop_bit 16 w), ucast (drop_bit 24 w)]"

definition NextUint32 :: "bytes \<Rightarrow> (u32 \<times> bytes) option" where
  "NextUint32 src =
     (case src of
        b0 # b1 # b2 # b3 # rest \<Rightarrow>
          Some (ucast b0 OR push_bit 8 (ucast b1) OR push_bit 16 (ucast b2)
                  OR push_bit 24 (ucast b3), rest)
      | _ \<Rightarrow> None)"

definition NextHash :: "bytes \<Rightarrow> (Uint256 \<times> bytes) option" where
  "NextHash src =
     (if length src < 32 then None else Some (Uint256_of (take 32 src), drop 32 src))"

subsection \<open>Keys\<close>

text \<open>
  The record-type prefixes \<^verbatim>\<open>scom.DATA_BLOCK\<close>, \<^verbatim>\<open>scom.DATA_HEADER\<close>, ... are constants of
  package store/common, outside the sources at hand; they are parameters of the model.
\<close>

record prefixes =
  DATA_BLOCK :: byte
  DATA_HEADER :: byte
  DATA_TRANSACTION :: byte
  SYS_CURRENT_BLOCK :: byte
  SYS_BLOCK_MERKLE_TREE :: byte
  SYS_VERSION :: byte

text \<open>
  Modelled from the spec: the values of the record-type prefixes, which the sources at hand
  do not give. The spec says that every persisted key is prefixed by a one-byte
  discriminant of its record type (header, transaction, block hash by height, current
  tip, version): the five prefixes are pairwise distinct.
\<close>

definition prefixes_distinct :: "prefixes \<Rightarrow> bool" where
  "prefixes_distinct p \<longleftrightarrow>
     distinct [DATA_HEADER p, DATA_TRANSACTION p, DATA_BLOCK p, SYS_CURRENT_BLOCK p,
       SYS_VERSION p]"

definition getTransactionKey :: "prefixes \<Rightarrow> Uint256 \<Rightarrow> bytes" where
  "getTransactionKey p txHash = DATA_TRANSACTION p # ToArray txHash"

definition getHeaderKey :: "prefixes \<Rightarrow> Uint256 \<Rightarrow> bytes" where
  "getHeaderKey p blockHash = DATA_HEADER p # ToArray blockHash"

definition getBlockHashKey :: "prefixes \<Rightarrow> u32 \<Rightarrow> bytes" where
  "getBlockHashKey p height = DATA_BLOCK p # WriteUint32 height"

definition getCurrentBlockKey :: "prefixes \<Rightarrow> bytes" where
  "getCurrentBlockKey p = [SYS_CURRENT_BLOCK p]"

definition getBlockMerkleTreeKey :: "prefixes \<Rightarrow> bytes" where
  "getBlockMerkleTreeKey p = [SYS_BLOCK_MERKLE_TREE p]"

definition getVersionKey :: "prefixes \<Rightarrow> bytes" where
  "getVersionKey p = [SYS_VERSION p]"

subsection \<open>The key-value store\<close>

text \<open>
  Modelled from the spec: \<^verbatim>\<open>leveldbstore.LevelDBStore\<close>, which is not part of the sources
  at hand. The spec describes a byte-key/byte-value store with point get, point put,
  batched put and delete, and an explicit, atomic batch commit; a read sees committed data
  only. \<open>db\<close> is the persisted content and \<open>batch\<close> the staged writes in the order they were
  staged. \<open>io_fault\<close> stands for a failing substrate: while it is set, a read, a direct
  write and a commit fail with \<open>ErrIO\<close> and change nothing.
\<close>

datatype store_error = ErrNotFound | ErrIO

datatype batch_op = BatchPutOp bytes bytes | BatchDeleteOp bytes

record LevelDBStore =
  db :: "bytes \<rightharpoonup> bytes"
  batch :: "batch_op list"
  io_fault :: bool

definition store_Get :: "LevelDBStore \<Rightarrow> bytes \<Rightarrow> store_error + bytes" where
  "store_Get s key =
     (if io_fault s then Inl ErrIO
      else case db s key of None \<Rightarrow> Inl ErrNotFound | Some v \<Rightarrow> Inr v)"

definition store_Put :: "LevelDBStore \<Rightarrow> bytes \<Rightarrow> bytes \<Rightarrow> LevelDBStore \<times> store_error option" where
  "store_Put s key v =
     (if io_fault s then (s, Some ErrIO) else (s\<lparr>db := (db s)(key \<mapsto> v)\<rparr>, None))"

definition store_NewBatch :: "LevelDBStore \<Rightarrow> LevelDBStore" where
  "store_NewBatch s = s\<lparr>batch := []\<rparr>"

definition store_BatchPut :: "LevelDBStore \<Rightarrow> bytes \<Rightarrow> bytes \<Rightarrow> LevelDBStore" where
  "store_BatchPut s key v = s\<lparr>batch := batch s @ [BatchPutOp key v]\<rparr>"

definition store_BatchDelete :: "LevelDBStore \<Rightarrow> bytes \<Rightarrow> LevelDBStore" where
  "store_BatchDelete s key = s\<lparr>batch := batch s @ [BatchDeleteOp key]\<rparr>"

fun apply_op :: "(bytes \<rightharpoonup> bytes) \<Rightarrow> batch_op \<Rightarrow> (bytes \<rightharpoonup> bytes)" where
  "apply_op m (BatchPutOp k v) = m(k \<mapsto> v)"
| "apply_op m (BatchDeleteOp k) = m(k := None)"

definition store_BatchCommit :: "LevelDBStore \<Rightarrow> LevelDBStore \<times> store_error option" where
  "store_BatchCommit s =
     (if io_fault s then (s, Some ErrIO)
      else (s\<lparr>db := foldl apply_op (db s) (batch s), batch := []\<rparr>, None))"

subsection \<open>The cache\<close>

text \<open>
  Modelled from the spec: \<^verbatim>\<open>BlockCache\<close>, which is not part of the sources at hand: a
  bounded cache of blocks and of transactions (with their heights), keyed by the bytes of
  the hash, most recently used first; an entry added or read moves to the front, and the
  entries beyond the capacity are dropped from the back.
\<close>

definition lru_add :: "nat \<Rightarrow> bytes \<Rightarrow> 'v \<Rightarrow> (bytes \<times> 'v) list \<Rightarrow> (bytes \<times> 'v) list" where
  "lru_add cap k v xs = take cap ((k, v) # filter (\<lambda>e. fst e \<noteq> k) xs)"

definition lru_get :: "bytes \<Rightarrow> (bytes \<times> 'v) list \<Rightarrow> 'v option \<times> (bytes \<times> 'v) list" where
  "lru_get k xs =
     (case map_of xs k of
        None \<Rightarrow> (None, xs)
      | Some v \<Rightarrow> (Some v, (k, v) # filter (\<lambda>e. fst e \<noteq> k) xs))"


record ('hd, 'tx) Block =
  Header :: 'hd
  Transactions :: "'tx list"

record ('hd, 'tx) BlockCache =
  blockCache :: "(bytes \<times> ('hd, 'tx) Block) list"
  transactionCache :: "(bytes \<times> 'tx \<times> u32) list"
  blockCacheSize :: nat
  transactionCacheSize :: nat

subsection \<open>The block store\<close>

text \<open>
  The types \<^verbatim>\<open>types.Header\<close> and \<^verbatim>\<open>types.Transaction\<close>, their hashes and their encodings
  belong to package types, outside the sources at hand: the model is generic in the
  header type \<open>'hd\<close> and the transaction type \<open>'tx\<close> and takes the operations on them as
  parameters. \<open>Header_Deserialization\<close> reads a header off a source and returns the rest
  of the source; \<open>Tx_Deserialization\<close> reads a transaction off the rest of a source;
  \<open>WriteBytes\<close> is \<^verbatim>\<open>serialization.WriteBytes\<close>, returning the bytes it appends to the
  writer.
\<close>

record ('hd, 'tx, 'e) codec =
  prefix :: prefixes
  Block_Hash :: "('hd, 'tx) Block \<Rightarrow> Uint256"
  Header_Height :: "'hd \<Rightarrow> u32"
  Header_Serialization :: "'hd \<Rightarrow> bytes"
  Header_Deserialization :: "bytes \<Rightarrow> 'e + 'hd \<times> bytes"
  Tx_Hash :: "'tx \<Rightarrow> Uint256"
  Tx_Raw :: "'tx \<Rightarrow> bytes"
  Tx_Deserialization :: "bytes \<Rightarrow> 'e + 'tx"
  WriteBytes :: "bytes \<Rightarrow> 'e + bytes"

text \<open>
  The struct \<^verbatim>\<open>BlockStore\<close>. Every use of \<open>cache\<close> in the source is guarded by
  \<open>enableCache\<close>; with the cache disabled the field is \<^verbatim>\<open>nil\<close> and never read, and the
  model ignores its value.
\<close>

record ('hd, 'tx) BlockStore =
  enableCache :: bool
  dbDir :: string
  cache :: "('hd, 'tx) BlockCache"
  store :: LevelDBStore

text \<open>
  Errors of the block store: an error of the store or of a decoder passed on as it is, the
  end of the source (\<^verbatim>\<open>io.ErrUnexpectedEOF\<close>), and one constructor per \<^verbatim>\<open>fmt.Errorf\<close>.
\<close>

datatype 'e block_error =
    StoreError store_error
  | CodecError 'e
  | UnexpectedEOF
  | InvalidHashLength
  | SaveHeaderError "'e block_error"
  | SaveTransactionError u32 Uint256 "'e block_error"
  | GetTransactionError Uint256 "'e block_error"
  | TransactionDeserializeError 'e

definition cache_AddBlock ::
  "('hd, 'tx, 'e) codec \<Rightarrow> ('hd, 'tx) BlockCache \<Rightarrow> ('hd, 'tx) Block \<Rightarrow> ('hd, 'tx) BlockCache" where
  "cache_AddBlock c bc block =
     bc\<lparr>blockCache := lru_add (blockCacheSize bc) (ToArray (Block_Hash c block)) block (blockCache bc)\<rparr>"

definition cache_GetBlock ::
  "('hd, 'tx) BlockCache \<Rightarrow> Uint256 \<Rightarrow> ('hd, 'tx) Block option \<times> ('hd, 'tx) BlockCache" where
  "cache_GetBlock bc blockHash =
     (case lru_get (ToArray blockHash) (blockCache bc) of (r, xs) \<Rightarrow> (r, bc\<lparr>blockCache := xs\<rparr>))"


definition cache_AddTransaction ::
  "('hd, 'tx, 'e) codec \<Rightarrow> ('hd, 'tx) BlockCache \<Rightarrow> 'tx \<Rightarrow> u32 \<Rightarrow> ('hd, 'tx) BlockCache" where
  "cache_AddTransaction c bc tx height =
     bc\<lparr>transactionCache :=
          lru_add (transactionCacheSize bc) (ToArray (Tx_Hash c tx)) (tx, height) (transactionCache bc)\<rparr>"

definition cache_GetTransaction ::
  "('hd, 'tx) BlockCache \<Rightarrow> Uint256 \<Rightarrow> ('tx \<times> u32) option \<times> ('hd, 'tx) BlockCache" where
  "cache_GetTransaction bc txHash =
     (case lru_get (ToArray txHash) (transactionCache bc) of
        (r, xs) \<Rightarrow> (r, bc\<lparr>transactionCache := xs\<rparr>))"


text \<open>
  \<^verbatim>\<open>NewBlockStore\<close>, given the cache \<^verbatim>\<open>NewBlockCache\<close> returns and the store
  \<^verbatim>\<open>NewLevelDBStore\<close> opens (the failures of the two constructors are the caller's).
\<close>

definition NewBlockStore ::
  "string \<Rightarrow> bool \<Rightarrow> ('hd, 'tx) BlockCache \<Rightarrow> LevelDBStore \<Rightarrow> ('hd, 'tx) BlockStore" where
  "NewBlockStore dir enable newCache newStore =
     \<lparr>enableCache = enable, dbDir = dir, cache = newCache, store = newStore\<rparr>"

definition NewBatch :: "('hd, 'tx) BlockStore \<Rightarrow> ('hd, 'tx) BlockStore" where
  "NewBatch bs = bs\<lparr>store := store_NewBatch (store bs)\<rparr>"

definition CommitTo :: "('hd, 'tx) BlockStore \<Rightarrow> ('hd, 'tx) BlockStore \<times> 'e block_error option" where
  "CommitTo bs =
     (case store_BatchCommit (store bs) of
        (s, None) \<Rightarrow> (bs\<lparr>store := s\<rparr>, None)
      | (s, Some e) \<Rightarrow> (bs\<lparr>store := s\<rparr>, Some (StoreError e)))"

text \<open>
  \<^verbatim>\<open>SaveHeader\<close>: the value is the header, the number of transactions as a
  \<^verbatim>\<open>uint32\<close> (the conversion wraps), and the hashes of the transactions.
\<close>

definition headerValue :: "('hd, 'tx, 'e) codec \<Rightarrow> ('hd, 'tx) Block \<Rightarrow> bytes" where
  "headerValue c block =
     Header_Serialization c (Header block)
     @ WriteUint32 (of_nat (length (Transactions block)))
     @ concat (map (\<lambda>tx. ToArray (Tx_Hash c tx)) (Transactions block))"

definition SaveHeader ::
  "('hd, 'tx, 'e) codec \<Rightarrow> ('hd, 'tx) BlockStore \<Rightarrow> ('hd, 'tx) Block
     \<Rightarrow> ('hd, 'tx) BlockStore \<times> 'e block_error option" where
  "SaveHeader c bs block =
     (let blockHash = Block_Hash c block;
          key = getHeaderKey (prefix c) blockHash
      in (bs\<lparr>store := store_BatchPut (store bs) key (headerValue c block)\<rparr>, None))"

text \<open>
  \<^verbatim>\<open>putTransaction\<close>: the value is the height followed by what \<^verbatim>\<open>WriteBytes\<close> writes for
  the raw transaction. Writing the height to a \<^verbatim>\<open>bytes.Buffer\<close> does not fail.
\<close>

definition putTransaction ::
  "('hd, 'tx, 'e) codec \<Rightarrow> ('hd, 'tx) BlockStore \<Rightarrow> 'tx \<Rightarrow> u32
     \<Rightarrow> ('hd, 'tx) BlockStore \<times> 'e block_error option" where
  "putTransaction c bs tx height =
     (let txHash = Tx_Hash c tx;
          key = getTransactionKey (prefix c) txHash
      in case WriteBytes c (Tx_Raw c tx) of
           Inl e \<Rightarrow> (bs, Some (CodecError e))
         | Inr w \<Rightarrow> (bs\<lparr>store := store_BatchPut (store bs) key (WriteUint32 height @ w)\<rparr>, None))"

definition SaveTransaction ::
  "('hd, 'tx, 'e) codec \<Rightarrow> ('hd, 'tx) BlockStore \<Rightarrow> 'tx \<Rightarrow> u32
     \<Rightarrow> ('hd, 'tx) BlockStore \<times> 'e block_error option" where
  "SaveTransaction c bs tx height =
     putTransaction c
       (if enableCache bs then bs\<lparr>cache := cache_AddTransaction c (cache bs) tx height\<rparr> else bs)
       tx height"

text \<open>The loop of \<^verbatim>\<open>SaveBlock\<close> over \<^verbatim>\<open>block.Transactions\<close> (lines 327-333).\<close>

fun saveTransactions ::
  "('hd, 'tx, 'e) codec \<Rightarrow> ('hd, 'tx) BlockStore \<Rightarrow> 'tx list \<Rightarrow> u32
     \<Rightarrow> ('hd, 'tx) BlockStore \<times> 'e block_error option" where
  "saveTransactions c bs [] blockHeight = (bs, None)"
| "saveTransactions c bs (tx # txs) blockHeight =
     (case SaveTransaction c bs tx blockHeight of
        (bs1, Some e) \<Rightarrow> (bs1, Some (SaveTransactionError blockHeight (Tx_Hash c tx) e))
      | (bs1, None) \<Rightarrow> saveTransactions c bs1 txs blockHeight)"

definition SaveBlock ::
  "('hd, 'tx, 'e) codec \<Rightarrow> ('hd, 'tx) BlockStore \<Rightarrow> ('hd, 'tx) Block
     \<Rightarrow> ('hd, 'tx) BlockStore \<times> 'e block_error option" where
  "SaveBlock c bs block =
     (let bs0 = (if enableCache bs then bs\<lparr>cache := cache_AddBlock c (cache bs) block\<rparr> else bs);
          blockHeight = Header_Height c (Header block)
      in case SaveHeader c bs0 block of
           (bs1, Some e) \<Rightarrow> (bs1, Some (SaveHeaderError e))
         | (bs1, None) \<Rightarrow> saveTransactions c bs1 (Transactions block) blockHeight)"


text \<open>The loop of \<^verbatim>\<open>loadHeaderWithTx\<close> reading \<open>txSize\<close> hashes (lines 403-409).\<close>

fun nextHashes :: "nat \<Rightarrow> bytes \<Rightarrow> Uint256 list option" where
  "nextHashes 0 src = Some []"
| "nextHashes (Suc k) src =
     (case NextHash src of
        None \<Rightarrow> None
      | Some (txHash, rest) \<Rightarrow>
          (case nextHashes k rest of None \<Rightarrow> None | Some txHashes \<Rightarrow> Some (txHash # txHashes)))"

definition loadHeaderWithTx ::
  "('hd, 'tx, 'e) codec \<Rightarrow> ('hd, 'tx) BlockStore \<Rightarrow> Uint256
     \<Rightarrow> 'e block_error + 'hd \<times> Uint256 list" where
  "loadHeaderWithTx c bs blockHash =
     (case store_Get (store bs) (getHeaderKey (prefix c) blockHash) of
        Inl e \<Rightarrow> Inl (StoreError e)
      | Inr v \<Rightarrow>
          (case Header_Deserialization c v of
             Inl e \<Rightarrow> Inl (CodecError e)
           | Inr (header, source) \<Rightarrow>
               (case NextUint32 source of
                  None \<Rightarrow> Inl UnexpectedEOF
                | Some (txSize, source1) \<Rightarrow>
                    (case nextHashes (unat txSize) source1 of
                       None \<Rightarrow> Inl UnexpectedEOF
                     | Some txHashes \<Rightarrow> Inr (header, txHashes)))))"



text \<open>\<^verbatim>\<open>loadTransaction\<close> looks into the cache once more before it reads the store.\<close>

definition decodeTransaction ::
  "('hd, 'tx, 'e) codec \<Rightarrow> bytes \<Rightarrow> 'e block_error + 'tx \<times> u32" where
  "decodeTransaction c v =
     (case NextUint32 v of
        None \<Rightarrow> Inl UnexpectedEOF
      | Some (height, source) \<Rightarrow>
          (case Tx_Deserialization c source of
             Inl e \<Rightarrow> Inl (TransactionDeserializeError e)
           | Inr tx \<Rightarrow> Inr (tx, height)))"

definition readTransaction ::
  "('hd, 'tx, 'e) codec \<Rightarrow> ('hd, 'tx) BlockStore \<Rightarrow> Uint256 \<Rightarrow> 'e block_error + 'tx \<times> u32" where
  "readTransaction c bs txHash =
     (case store_Get (store bs) (getTransactionKey (prefix c) txHash) of
        Inl e \<Rightarrow> Inl (StoreError e)
      | Inr v \<Rightarrow> decodeTransaction c v)"

definition loadTransaction ::
  "('hd, 'tx, 'e) codec \<Rightarrow> ('hd, 'tx) BlockStore \<Rightarrow> Uint256
     \<Rightarrow> ('e block_error + 'tx \<times> u32) \<times> ('hd, 'tx) BlockStore" where
  "loadTransaction c bs txHash =
     (if enableCache bs then
        (case cache_GetTransaction (cache bs) txHash of
           (Some (tx, height), bc) \<Rightarrow> (Inr (tx, height), bs\<lparr>cache := bc\<rparr>)
         | (None, bc) \<Rightarrow> (readTransaction c (bs\<lparr>cache := bc\<rparr>) txHash, bs\<lparr>cache := bc\<rparr>))
      else (readTransaction c bs txHash, bs))"

definition GetTransaction ::
  "('hd, 'tx, 'e) codec \<Rightarrow> ('hd, 'tx) BlockStore \<Rightarrow> Uint256
     \<Rightarrow> ('e block_error + 'tx \<times> u32) \<times> ('hd, 'tx) BlockStore" where
  "GetTransaction c bs txHash =
     (if enableCache bs then
        (case cache_GetTransaction (cache bs) txHash of
           (Some (tx, height), bc) \<Rightarrow> (Inr (tx, height), bs\<lparr>cache := bc\<rparr>)
         | (None, bc) \<Rightarrow> loadTransaction c (bs\<lparr>cache := bc\<rparr>) txHash)
      else loadTransaction c bs txHash)"

text \<open>
  The loop of \<^verbatim>\<open>GetBlock\<close> over the transaction hashes (lines 369-378). The test
  \<^verbatim>\<open>tx == nil\<close> of line 374 has no branch here: \<^verbatim>\<open>GetTransaction\<close> returns a transaction
  whenever it returns no error.
\<close>

fun getTransactions ::
  "('hd, 'tx, 'e) codec \<Rightarrow> ('hd, 'tx) BlockStore \<Rightarrow> Uint256 list
     \<Rightarrow> ('e block_error + 'tx list) \<times> ('hd, 'tx) BlockStore" where
  "getTransactions c bs [] = (Inr [], bs)"
| "getTransactions c bs (txHash # txHashes) =
     (case GetTransaction c bs txHash of
        (Inl e, bs1) \<Rightarrow> (Inl (GetTransactionError txHash e), bs1)
      | (Inr (tx, _), bs1) \<Rightarrow>
          (case getTransactions c bs1 txHashes of
             (Inl e, bs2) \<Rightarrow> (Inl e, bs2)
           | (Inr txList, bs2) \<Rightarrow> (Inr (tx # txList), bs2)))"

definition GetBlock ::
  "('hd, 'tx, 'e) codec \<Rightarrow> ('hd, 'tx) BlockStore \<Rightarrow> Uint256
     \<Rightarrow> ('e block_error + ('hd, 'tx) Block) \<times> ('hd, 'tx) BlockStore" where
  "GetBlock c bs blockHash =
     (case (if enableCache bs then
              (case cache_GetBlock (cache bs) blockHash of (r, bc) \<Rightarrow> (r, bs\<lparr>cache := bc\<rparr>))
            else (None, bs)) of
        (Some block, bs0) \<Rightarrow> (Inr block, bs0)
      | (None, bs0) \<Rightarrow>
          (case loadHeaderWithTx c bs0 blockHash of
             Inl e \<Rightarrow> (Inl e, bs0)
           | Inr (header, txHashes) \<Rightarrow>
               (case getTransactions c bs0 txHashes of
                  (Inl e, bs1) \<Rightarrow> (Inl e, bs1)
                | (Inr txList, bs1) \<Rightarrow> (Inr \<lparr>Header = header, Transactions = txList\<rparr>, bs1))))"



definition SaveCurrentBlock ::
  "('hd, 'tx, 'e) codec \<Rightarrow> ('hd, 'tx) BlockStore \<Rightarrow> u32 \<Rightarrow> Uint256
     \<Rightarrow> ('hd, 'tx) BlockStore \<times> 'e block_error option" where
  "SaveCurrentBlock c bs height blockHash =
     (let key = getCurrentBlockKey (prefix c)
      in (bs\<lparr>store := store_BatchPut (store bs) key (ToArray blockHash @ WriteUint32 height)\<rparr>,
          None))"


definition SaveBlockHash ::
  "('hd, 'tx, 'e) codec \<Rightarrow> ('hd, 'tx) BlockStore \<Rightarrow> u32 \<Rightarrow> Uint256 \<Rightarrow> ('hd, 'tx) BlockStore" where
  "SaveBlockHash c bs height blockHash =
     (let key = getBlockHashKey (prefix c) height
      in bs\<lparr>store := store_BatchPut (store bs) key (ToArray blockHash)\<rparr>)"

definition GetVersion ::
  "('hd, 'tx, 'e) codec \<Rightarrow> ('hd, 'tx) BlockStore \<Rightarrow> 'e block_error + byte" where
  "GetVersion c bs =
     (case store_Get (store bs) (getVersionKey (prefix c)) of
        Inl e \<Rightarrow> Inl (StoreError e)
      | Inr v \<Rightarrow> (case v of [] \<Rightarrow> Inl UnexpectedEOF | b # _ \<Rightarrow> Inr b))"

definition SaveVersion ::
  "('hd, 'tx, 'e) codec \<Rightarrow> ('hd, 'tx) BlockStore \<Rightarrow> byte
     \<Rightarrow> ('hd, 'tx) BlockStore \<times> 'e block_error option" where
  "SaveVersion c bs ver =
     (let key = getVersionKey (prefix c)
      in case store_Put (store bs) key [ver] of
           (s, None) \<Rightarrow> (bs\<lparr>store := s\<rparr>, None)
         | (s, Some e) \<Rightarrow> (bs\<lparr>store := s\<rparr>, Some (StoreError e)))"

subsection \<open>What the cache holds\<close>

text \<open>
  The entry the cache of an enabled store holds for a hash, if any. The readers above
  consult the cache through these two lookups only.
\<close>

definition block_cached :: "('hd, 'tx) BlockStore \<Rightarrow> Uint256 \<Rightarrow> ('hd, 'tx) Block option" where
  "block_cached bs blockHash =
     (if enableCache bs then map_of (blockCache (cache bs)) (ToArray blockHash) else None)"

definition tx_cached :: "('hd, 'tx) BlockStore \<Rightarrow> Uint256 \<Rightarrow> ('tx \<times> u32) option" where
  "tx_cached bs txHash =
     (if enableCache bs then map_of (transactionCache (cache bs)) (ToArray txHash) else None)"

text \<open>
  What a read depends on: the store and the entries the cache holds, whatever their order.
\<close>

definition view ::
  "('hd, 'tx) BlockStore
     \<Rightarrow> LevelDBStore \<times> (Uint256 \<Rightarrow> ('hd, 'tx) Block option) \<times> (Uint256 \<Rightarrow> ('tx \<times> u32) option)" where
  "view bs = (store bs, block_cached bs, tx_cached bs)"

text \<open>
  The results of \<^verbatim>\<open>GetTransaction\<close> and of the loop of \<^verbatim>\<open>GetBlock\<close>, without the
  reordering of the cache (lemmas \<open>GetTransaction_result\<close> and \<open>getTransactions_result\<close>
  below relate them to the functions above).
\<close>

definition lookupTransaction ::
  "('hd, 'tx, 'e) codec \<Rightarrow> ('hd, 'tx) BlockStore \<Rightarrow> Uint256 \<Rightarrow> 'e block_error + 'tx \<times> u32" where
  "lookupTransaction c bs txHash =
     (case tx_cached bs txHash of Some r \<Rightarrow> Inr r | None \<Rightarrow> readTransaction c bs txHash)"

fun lookupTransactions ::
  "('hd, 'tx, 'e) codec \<Rightarrow> ('hd, 'tx) BlockStore \<Rightarrow> Uint256 list \<Rightarrow> 'e block_error + 'tx list" where
  "lookupTransactions c bs [] = Inr []"
| "lookupTransactions c bs (txHash # txHashes) =
     (case lookupTransaction c bs txHash of
        Inl e \<Rightarrow> Inl (GetTransactionError txHash e)
      | Inr (tx, _) \<Rightarrow>
          (case lookupTransactions c bs txHashes of
             Inl e \<Rightarrow> Inl e
           | Inr txList \<Rightarrow> Inr (tx # txList)))"

text \<open>The same store with the cache switched off.\<close>

definition uncached :: "('hd, 'tx) BlockStore \<Rightarrow> ('hd, 'tx) BlockStore" where
  "uncached bs = bs\<lparr>enableCache := False\<rparr>"


text \<open>
  The write \<^verbatim>\<open>putTransaction\<close> stages for a transaction at a height, when \<^verbatim>\<open>WriteBytes\<close>
  succeeds on its raw bytes.
\<close>

definition txOp :: "('hd, 'tx, 'e) codec \<Rightarrow> u32 \<Rightarrow> 'tx \<Rightarrow> batch_op" where
  "txOp c height tx =
     BatchPutOp (getTransactionKey (prefix c) (Tx_Hash c tx))
       (WriteUint32 height @ (case WriteBytes c (Tx_Raw c tx) of Inr w \<Rightarrow> w | Inl _ \<Rightarrow> []))"

text \<open>
  The assumptions on the encodings under which a saved block can be read back: a header
  is read back from its encoding, whatever follows it in the source; a transaction of the
  block is read back from what \<^verbatim>\<open>WriteBytes\<close> writes for its raw bytes; and no two
  transactions of the block share a hash.
\<close>

definition block_encodable :: "('hd, 'tx, 'e) codec \<Rightarrow> ('hd, 'tx) Block \<Rightarrow> bool" where
  "block_encodable c block \<longleftrightarrow>
     (\<forall>rest. Header_Deserialization c (Header_Serialization c (Header block) @ rest) =
              Inr (Header block, rest))
     \<and> (\<forall>tx \<in> set (Transactions block). \<forall>w.
           WriteBytes c (Tx_Raw c tx) = Inr w \<longrightarrow> Tx_Deserialization c w = Inr tx)
     \<and> inj_on (Tx_Hash c) (set (Transactions block))"

subsection \<open>Encodings to run the store on\<close>

text \<open>
  A concrete instance of the parameters, for evaluating the store on explicit inputs: the
  prefixes 0, 1, 2, 16, 19 and 17; a header that is just its height, encoded in four
  bytes; a transaction that is its non-empty raw bytes; hashes that pad the encoding with
  zeros to 32 bytes.
\<close>

datatype codec_error = Malformed

definition std_prefixes :: prefixes where
  "std_prefixes =
     \<lparr>DATA_BLOCK = 0, DATA_HEADER = 1, DATA_TRANSACTION = 2, SYS_CURRENT_BLOCK = 16,
      SYS_BLOCK_MERKLE_TREE = 19, SYS_VERSION = 17\<rparr>"

definition plain_codec :: "(u32, bytes, codec_error) codec" where
  "plain_codec =
     \<lparr>prefix = std_prefixes,
      Block_Hash = (\<lambda>b. Uint256_of (WriteUint32 (Header b))),
      Header_Height = (\<lambda>h. h),
      Header_Serialization = WriteUint32,
      Header_Deserialization =
        (\<lambda>src. case NextUint32 src of None \<Rightarrow> Inl Malformed | Some r \<Rightarrow> Inr r),
      Tx_Hash = Uint256_of,
      Tx_Raw = (\<lambda>tx. tx),
      Tx_Deserialization = (\<lambda>src. if src = [] then Inl Malformed else Inr src),
      WriteBytes = (\<lambda>raw. Inr raw)\<rparr>"

definition empty_cache :: "(u32, bytes) BlockCache" where
  "empty_cache =
     \<lparr>blockCache = [], transactionCache = [], blockCacheSize = 10, transactionCacheSize = 100\<rparr>"

definition empty_store :: LevelDBStore where
  "empty_store = \<lparr>db = Map.empty, batch = [], io_fault = False\<rparr>"

definition block5 :: "(u32, bytes) Block" where
  "block5 = \<lparr>Header = 5, Transactions = [ [1, 2], [3] ]\<rparr>"

text \<open>
  Two empty stores on these encodings, without and with the cache, and the states used as
  explicit inputs below: \<open>committed\<close> commits the batch of a store; \<open>saved_block5\<close> is
  the cached store after \<^verbatim>\<open>SaveBlock\<close>, not yet committed; in \<open>header_and_first_tx\<close> the
  header and the first transaction only are committed, without cache; in
  \<open>header_committed_txs_staged\<close> the header is committed and the two transactions are saved
  but not committed, with the cache. \<open>big_block\<close> has \<open>2^32\<close> equal transactions.
\<close>

definition cold_store :: "(u32, bytes) BlockStore" where
  "cold_store = NewBlockStore ''Chain/block'' False empty_cache empty_store"

definition warm_store :: "(u32, bytes) BlockStore" where
  "warm_store = NewBlockStore ''Chain/block'' True empty_cache empty_store"

definition committed :: "(u32, bytes) BlockStore \<Rightarrow> (u32, bytes) BlockStore" where
  "committed bs = fst (CommitTo bs :: _ \<times> codec_error block_error option)"

definition saved_block5 :: "(u32, bytes) BlockStore" where
  "saved_block5 = fst (SaveBlock plain_codec (NewBatch warm_store) block5)"

definition header_and_first_tx :: "(u32, bytes) BlockStore" where
  "header_and_first_tx =
     committed (fst (SaveTransaction plain_codec
       (fst (SaveHeader plain_codec (NewBatch cold_store) block5)) [1, 2] 5))"

definition header_committed_txs_staged :: "(u32, bytes) BlockStore" where
  "header_committed_txs_staged =
     fst (SaveTransaction plain_codec
       (fst (SaveTransaction plain_codec
         (NewBatch (committed (fst (SaveHeader plain_codec (NewBatch warm_store) block5))))
         [1, 2] 5))
       [3] 5)"

definition big_block :: "(u32, bytes) Block" where
  "big_block = \<lparr>Header = 5, Transactions = replicate (2 ^ 32) [1]\<rparr>"


subsection \<open>Sequences of operations\<close>















text \<open>
  What the store holds once its batch is committed, and the value \<^verbatim>\<open>putTransaction\<close>
  stores for a transaction at a height.
\<close>

definition pending :: "LevelDBStore \<Rightarrow> bytes \<rightharpoonup> bytes" where
  "pending s = foldl apply_op (db s) (batch s)"





section \<open>Properties of the dispatcher\<close>

lemma failed_simps [simp]:
  "ret (failed e n cs) = BYTE_FALSE"
  "err (failed e n cs) = Some e"
  "native (failed e n cs) = n"
  "calls (failed e n cs) = cs"
  by (simp_all add: failed_def)

lemma succeeded_simps [simp]:
  "ret (succeeded n cs) = BYTE_TRUE"
  "err (succeeded n cs) = None"
  "native (succeeded n cs) = n"
  "calls (succeeded n cs) = cs"
  by (simp_all add: succeeded_def)

text \<open>
  Claim C5. When the contract input decodes to an \<^verbatim>\<open>EntranceParam\<close> whose source chain is
  not registered (\<^verbatim>\<open>GetSideChain\<close> fails, or the record it returns carries another chain
  identifier), \<^verbatim>\<open>ImportExTransfer\<close> returns \<^verbatim>\<open>BYTE_FALSE\<close> with the error of the failed
  lookup or the error "side chain is not registered", leaves the state as it was, and its
  only call was the registry lookup: no chain handler was resolved or invoked.
\<close>

theorem ImportExTransfer_unregistered_source:
  assumes "ParamsDeserialization env n = Inr params"
    and "\<not> registered_chain env n (SourceChainID params)"
  shows "ret (ImportExTransfer env n) = BYTE_FALSE
       \<and> err (ImportExTransfer env n) =
           Some (case GetSideChain env n (SourceChainID params) of
                   Inl e \<Rightarrow> GetSideChainError e
                 | Inr sideChain \<Rightarrow> SideChainNotRegistered)
       \<and> native (ImportExTransfer env n) = n
       \<and> calls (ImportExTransfer env n) = [CallGetSideChain (SourceChainID params)]"
  using assms
  by (auto simp: ImportExTransfer_def registered_chain_def Let_def split: sum.splits)

theorem ImportExTransfer_unregistered_source_witness:
  "ParamsDeserialization relay_env unregistered_state = Inr neo_param
   \<and> \<not> registered_chain relay_env unregistered_state (SourceChainID neo_param)
   \<and> ret (ImportExTransfer relay_env unregistered_state) = BYTE_FALSE
   \<and> err (ImportExTransfer relay_env unregistered_state) = Some (GetSideChainError NoSideChain)
   \<and> native (ImportExTransfer relay_env unregistered_state) = unregistered_state
   \<and> calls (ImportExTransfer relay_env unregistered_state) = [CallGetSideChain 4]"
proof -
  have d: "ParamsDeserialization relay_env unregistered_state = Inr neo_param"
    by (simp add: relay_env_def unregistered_state_def)
  have u: "\<not> registered_chain relay_env unregistered_state (SourceChainID neo_param)"
    by (simp add: registered_chain_def relay_env_def unregistered_state_def neo_param_def)
  have s: "SourceChainID neo_param = 4" by (simp add: neo_param_def)
  have g: "GetSideChain relay_env unregistered_state 4 = Inl NoSideChain"
    by (simp add: relay_env_def unregistered_state_def)
  show ?thesis using ImportExTransfer_unregistered_source [OF d u] d u s g by simp
qed

lemma ImportExTransfer_routed:
  assumes "ParamsDeserialization env n = Inr params"
    and "SourceChainID params = 2 \<or> SourceChainID params = 3"
    and "registered_chain env n (SourceChainID params)"
    and "GetChainHandler (ids env) (SourceChainID params) = Inr handler"
    and "MakeDepositProposal env handler n = (n1, Inr txParam)"
  shows "ImportExTransfer env n =
           makeTargetChainTx env n1
             [CallGetSideChain (SourceChainID params), CallGetChainHandler (SourceChainID params),
              CallMakeDepositProposal handler] txParam"
proof -
  obtain sc where sc: "GetSideChain env n (SourceChainID params) = Inr sc"
      "ChainId sc = SourceChainID params"
    using assms(3) by (auto simp: registered_chain_def split: sum.splits)
  show ?thesis
    by (simp add: ImportExTransfer_def assms(1,2,4,5) sc Let_def)
qed

lemma makeTargetChainTx_calls:
  "take (Suc (length cs)) (calls (makeTargetChainTx env n cs p)) = cs @ [CallGetSideChain (ToChainID p)]"
  by (simp add: makeTargetChainTx_def Let_def split: sum.splits prod.splits option.splits)

lemma makeTargetChainTx_ok_iff:
  "err (makeTargetChainTx env n cs p) = None \<longleftrightarrow>
     registered_chain env n (ToChainID p)
     \<and> (\<exists>h n2. GetChainHandler (ids env) (ToChainID p) = Inr h \<and> MakeTransaction env h n p = (n2, None))"
  by (auto simp add: makeTargetChainTx_def registered_chain_def Let_def
      split: sum.splits prod.splits option.splits)

lemma makeTargetChainTx_ret:
  "ret (makeTargetChainTx env n cs p) = BYTE_TRUE \<longleftrightarrow> err (makeTargetChainTx env n cs p) = None"
  by (simp add: makeTargetChainTx_def Let_def BYTE_TRUE_def BYTE_FALSE_def
      split: sum.splits prod.splits option.splits)

lemma makeTargetChainTx_ok:
  assumes "err (makeTargetChainTx env n cs p) = None"
  shows "\<exists>h. GetChainHandler (ids env) (ToChainID p) = Inr h
       \<and> drop (Suc (length cs)) (calls (makeTargetChainTx env n cs p)) =
           [CallGetChainHandler (ToChainID p), CallMakeTransaction h p]
       \<and> native (makeTargetChainTx env n cs p) = fst (MakeTransaction env h n p)"
  using assms
  by (auto simp add: makeTargetChainTx_def Let_def
      split: sum.splits prod.splits option.splits if_splits)

text \<open>
  Claim C1, as amended. For a source chain with identifier 2 or 3 that is registered,
  whose handler resolves and whose proof yields a deposit proposal,
  \<^verbatim>\<open>ImportExTransfer\<close> looks up the registration of the proposal's declared target chain
  right after \<^verbatim>\<open>MakeDepositProposal\<close>; it returns without error exactly when that chain
  is registered, its handler resolves and \<^verbatim>\<open>MakeTransaction\<close> succeeds; it returns
  \<^verbatim>\<open>BYTE_TRUE\<close> exactly when it returns without error; and on success the remaining calls
  are the resolution of the target handler and \<^verbatim>\<open>MakeTransaction\<close> on that handler with
  the proposal, whose state is the state returned.
\<close>

theorem ImportExTransfer_routed_pipeline:
  assumes "ParamsDeserialization env n = Inr params"
    and "SourceChainID params = 2 \<or> SourceChainID params = 3"
    and "registered_chain env n (SourceChainID params)"
    and "GetChainHandler (ids env) (SourceChainID params) = Inr handler"
    and "MakeDepositProposal env handler n = (n1, Inr txParam)"
  shows "take 4 (calls (ImportExTransfer env n)) =
           [CallGetSideChain (SourceChainID params), CallGetChainHandler (SourceChainID params),
            CallMakeDepositProposal handler, CallGetSideChain (ToChainID txParam)]
       \<and> (err (ImportExTransfer env n) = None \<longleftrightarrow>
            registered_chain env n1 (ToChainID txParam)
            \<and> (\<exists>h n2. GetChainHandler (ids env) (ToChainID txParam) = Inr h
                  \<and> MakeTransaction env h n1 txParam = (n2, None)))
       \<and> (ret (ImportExTransfer env n) = BYTE_TRUE \<longleftrightarrow> err (ImportExTransfer env n) = None)
       \<and> (err (ImportExTransfer env n) = None \<longrightarrow>
            (\<exists>h. GetChainHandler (ids env) (ToChainID txParam) = Inr h
               \<and> drop 4 (calls (ImportExTransfer env n)) =
                   [CallGetChainHandler (ToChainID txParam), CallMakeTransaction h txParam]
               \<and> native (ImportExTransfer env n) = fst (MakeTransaction env h n1 txParam)))"
proof -
  let ?cs = "[CallGetSideChain (SourceChainID params), CallGetChainHandler (SourceChainID params),
              CallMakeDepositProposal handler]"
  have eq: "ImportExTransfer env n = makeTargetChainTx env n1 ?cs txParam"
    by (rule ImportExTransfer_routed [OF assms])
  have a: "take 4 (calls (makeTargetChainTx env n1 ?cs txParam)) = ?cs @ [CallGetSideChain (ToChainID txParam)]"
    using makeTargetChainTx_calls [of ?cs env n1 txParam] by (simp add: numeral_eq_Suc)
  have d: "err (makeTargetChainTx env n1 ?cs txParam) = None \<Longrightarrow>
           \<exists>h. GetChainHandler (ids env) (ToChainID txParam) = Inr h
              \<and> drop 4 (calls (makeTargetChainTx env n1 ?cs txParam)) =
                  [CallGetChainHandler (ToChainID txParam), CallMakeTransaction h txParam]
              \<and> native (makeTargetChainTx env n1 ?cs txParam) = fst (MakeTransaction env h n1 txParam)"
    using makeTargetChainTx_ok [of env n1 ?cs txParam] by (simp add: numeral_eq_Suc)
  show ?thesis
    unfolding eq using a d makeTargetChainTx_ok_iff [of env n1 ?cs txParam]
      makeTargetChainTx_ret [of env n1 ?cs txParam]
    by simp
qed

theorem ImportExTransfer_routed_pipeline_witness:
  "ParamsDeserialization relay_env eth_state = Inr eth_param
   \<and> SourceChainID eth_param = 2
   \<and> registered_chain relay_env eth_state 2
   \<and> GetChainHandler (ids relay_env) 2 = Inr ETHHandler
   \<and> MakeDepositProposal relay_env ETHHandler eth_state = (eth_state, Inr eth_proposal)
   \<and> calls (ImportExTransfer relay_env eth_state) =
       [CallGetSideChain 2, CallGetChainHandler 2, CallMakeDepositProposal ETHHandler,
        CallGetSideChain 3, CallGetChainHandler 3, CallMakeTransaction ONTHandler eth_proposal]
   \<and> err (ImportExTransfer relay_env eth_state) = None
   \<and> ret (ImportExTransfer relay_env eth_state) = BYTE_TRUE
   \<and> outgoing (native (ImportExTransfer relay_env eth_state)) = [(ONTHandler, eth_proposal)]"
proof -
  have d: "ParamsDeserialization relay_env eth_state = Inr eth_param"
    by (simp add: relay_env_def eth_state_def)
  have s: "SourceChainID eth_param = 2" by (simp add: eth_param_def)
  have s': "SourceChainID eth_param = 2 \<or> SourceChainID eth_param = 3" by (simp add: s)
  have r: "registered_chain relay_env eth_state (SourceChainID eth_param)"
    by (simp add: registered_chain_def relay_env_def eth_state_def eth_param_def)
  have h: "GetChainHandler (ids relay_env) (SourceChainID eth_param) = Inr ETHHandler"
    by (simp add: GetChainHandler_def relay_env_def std_chain_ids_def eth_param_def)
  have m: "MakeDepositProposal relay_env ETHHandler eth_state = (eth_state, Inr eth_proposal)"
    by (simp add: relay_env_def eth_state_def)
  have t: "ToChainID eth_proposal = 3" by (simp add: eth_proposal_def)
  have g: "GetChainHandler (ids relay_env) 3 = Inr ONTHandler"
    by (simp add: GetChainHandler_def relay_env_def std_chain_ids_def)
  have r3: "registered_chain relay_env eth_state 3"
    by (simp add: registered_chain_def relay_env_def eth_state_def)
  have mt: "MakeTransaction relay_env ONTHandler eth_state eth_proposal =
      (eth_state\<lparr>outgoing := [(ONTHandler, eth_proposal)]\<rparr>, None)"
    by (simp add: relay_env_def eth_state_def)
  have ok: "err (ImportExTransfer relay_env eth_state) = None"
    using ImportExTransfer_routed_pipeline [OF d s' r h m] r3 g mt by (simp add: t)
  have c: "calls (ImportExTransfer relay_env eth_state) =
      take 4 (calls (ImportExTransfer relay_env eth_state)) @ drop 4 (calls (ImportExTransfer relay_env eth_state))"
    by simp
  show ?thesis
    using ImportExTransfer_routed_pipeline [OF d s' r h m] ok d s r h m g mt
    by (subst c) (simp add: t)
qed

text \<open>
  Claim C1 as stated fails for a source chain other than 2 and 3: with source chain 4
  registered and a proof that yields a proposal for the unregistered chain 9,
  \<^verbatim>\<open>ImportExTransfer\<close> returns \<^verbatim>\<open>BYTE_TRUE\<close> after \<^verbatim>\<open>MakeDepositProposal\<close>, without having
  looked up the target chain, resolved a target handler or called \<^verbatim>\<open>MakeTransaction\<close>.
\<close>

theorem ImportExTransfer_unrouted_chain_succeeds:
  "ParamsDeserialization relay_env neo_state = Inr neo_param
   \<and> registered_chain relay_env neo_state (SourceChainID neo_param)
   \<and> MakeDepositProposal relay_env NEOHandler neo_state = (neo_state, Inr neo_proposal)
   \<and> \<not> registered_chain relay_env neo_state (ToChainID neo_proposal)
   \<and> ImportExTransfer relay_env neo_state =
       \<lparr>ret = BYTE_TRUE, err = None, native = neo_state,
        calls = [CallGetSideChain 4, CallGetChainHandler 4, CallMakeDepositProposal NEOHandler]\<rparr>"
  by (simp add: ImportExTransfer_def relay_env_def neo_state_def neo_param_def neo_proposal_def
      registered_chain_def GetChainHandler_def std_chain_ids_def succeeded_def failed_def)

section \<open>Properties of header synchronisation\<close>

lemma syncHeaders_append:
  "syncHeaders env addr n (pre @ vs) =
     (case syncHeaders env addr n pre of
        (m, None) \<Rightarrow> syncHeaders env addr m vs
      | (m, Some e) \<Rightarrow> (m, Some e))"
  by (induction pre arbitrary: n)
    (auto split: sum.splits option.splits prod.splits)

lemma syncHeaders_failure:
  assumes "syncHeaders env addr n vs = (n', Some e)"
  shows "\<exists>pre v post m.
           vs = pre @ v # post
         \<and> syncHeaders env addr n pre = (m, None)
         \<and> syncHeaders env addr m [v] = (n', Some e)"
  using assms
proof (induction vs arbitrary: n)
  case Nil
  then show ?case by simp
next
  case (Cons v vs)
  show ?case
  proof (cases "syncHeaders env addr n [v]")
    case (Pair m r)
    show ?thesis
    proof (cases r)
      case None
      have "syncHeaders env addr n ([v] @ vs) = syncHeaders env addr m vs"
        by (simp only: syncHeaders_append Pair None split: prod.splits option.splits) simp
      with Cons.prems have "syncHeaders env addr m vs = (n', Some e)" by simp
      from Cons.IH [OF this] obtain pre w post k where
        k: "vs = pre @ w # post" "syncHeaders env addr m pre = (k, None)"
           "syncHeaders env addr k [w] = (n', Some e)"
        by blast
      have "syncHeaders env addr n ([v] @ pre) = (k, None)"
        by (simp only: syncHeaders_append Pair None split: prod.splits option.splits)
           (simp add: k)
      then have "v # vs = (v # pre) @ w # post \<and> syncHeaders env addr n (v # pre) = (k, None)
           \<and> syncHeaders env addr k [w] = (n', Some e)"
        using k by simp
      then show ?thesis by blast
    next
      case (Some e')
      have "syncHeaders env addr n ([v] @ vs) = (m, Some e')"
        by (simp only: syncHeaders_append Pair Some split: prod.splits option.splits) simp
      with Cons.prems have "m = n'" "e' = e" by simp_all
      then have "v # vs = [] @ v # vs \<and> syncHeaders env addr n [] = (n, None)
           \<and> syncHeaders env addr n [v] = (n', Some e)"
        using Pair Some by simp
      then show ?thesis by blast
    qed
  qed
qed

lemma syncHeaders_single_rejected:
  assumes "syncHeaders env addr m [v] = (n', Some e)" and "rejected_before_store e"
  shows "n' = m"
  using assms
  by (auto simp: rejected_before_store_def split: sum.splits option.splits prod.splits)

lemma syncHeaders_single_put_failed:
  assumes "syncHeaders env addr m [v] = (n', Some (PutBlockHeaderError x))"
  shows "\<exists>header. HeaderFromRawBytes env v = Inr header
       \<and> PutBlockHeader env m header = (n', Some x)"
  using assms
  by (auto split: sum.splits option.splits prod.splits)

lemma syncHeaders_single_update_failed:
  assumes "syncHeaders env addr m [v] = (n', Some (UpdateConsensusPeerError x))"
  shows "\<exists>header m1. HeaderFromRawBytes env v = Inr header
       \<and> PutBlockHeader env m header = (m1, None)
       \<and> UpdateConsensusPeer env m1 header addr = (n', Some x)"
  using assms
  by (auto split: sum.splits option.splits prod.splits)

lemma syncHeaders_keeps_found:
  assumes "lookup_framed env c h" and "GetHeaderByHeight env n c h = Inr found"
  shows "GetHeaderByHeight env (fst (syncHeaders env addr n vs)) c h = Inr found"
  using assms(2)
proof (induction vs arbitrary: n)
  case Nil
  then show ?case by simp
next
  case (Cons v vs)
  show ?case
  proof (cases "HeaderFromRawBytes env v")
    case (Inl e)
    then show ?thesis using Cons.prems by simp
  next
    case (Inr header)
    show ?thesis
    proof (cases "GetHeaderByHeight env n (ShardID header) (Height_hdr header)")
      case (Inr x)
      then show ?thesis using Cons.prems \<open>HeaderFromRawBytes env v = Inr header\<close> by simp
    next
      case (Inl e)
      then have ne: "(ShardID header, Height_hdr header) \<noteq> (c, h)"
        using Cons.prems by auto
      show ?thesis
      proof (cases "verifyHeader env n header")
        case (Some e')
        then show ?thesis
          using Cons.prems Inl \<open>HeaderFromRawBytes env v = Inr header\<close> by simp
      next
        case None
        obtain n1 r1 where p: "PutBlockHeader env n header = (n1, r1)" by fastforce
        have f1: "GetHeaderByHeight env n1 c h = Inr found"
          using assms(1) ne p Cons.prems unfolding lookup_framed_def
          by (metis fst_conv)
        obtain n2 r2 where u: "UpdateConsensusPeer env n1 header addr = (n2, r2)" by fastforce
        have f2: "GetHeaderByHeight env n2 c h = Inr found"
          using assms(1) u f1 unfolding lookup_framed_def
          by (metis fst_conv)
        show ?thesis
          using Cons.IH [OF f2] f1 f2 p u None Inl \<open>HeaderFromRawBytes env v = Inr header\<close>
          by (cases r1; cases r2) simp_all
      qed
    qed
  qed
qed

lemma syncHeaders_duplicate_at:
  assumes "HeaderFromRawBytes env v = Inr header"
    and "GetHeaderByHeight env m (ShardID header) (Height_hdr header) = Inr found"
  shows "syncHeaders env addr m (v # post) =
           (m, Some (DuplicateHeader (ShardID header) (Height_hdr header)))"
  using assms by simp

lemma syncHeaders_duplicate_fails:
  assumes "lookup_framed env (ShardID header) (Height_hdr header)"
    and "HeaderFromRawBytes env v = Inr header"
    and "GetHeaderByHeight env n (ShardID header) (Height_hdr header) = Inr found"
  shows "snd (syncHeaders env addr n (pre @ v # post)) \<noteq> None"
proof (cases "syncHeaders env addr n pre")
  case (Pair m r)
  show ?thesis
  proof (cases r)
    case None
    have "GetHeaderByHeight env (fst (syncHeaders env addr n pre)) (ShardID header)
        (Height_hdr header) = Inr found"
      by (rule syncHeaders_keeps_found [OF assms(1,3)])
    then have "GetHeaderByHeight env m (ShardID header) (Height_hdr header) = Inr found"
      by (simp add: Pair)
    from syncHeaders_duplicate_at [OF assms(2) this] show ?thesis
      by (simp only: syncHeaders_append Pair None split: prod.splits option.splits) simp
  next
    case (Some e)
    show ?thesis
      by (simp only: syncHeaders_append Pair Some split: prod.splits option.splits) simp
  qed
qed

text \<open>
  Claim C2, as amended. Let a \<^verbatim>\<open>SyncBlockHeader\<close> call carry a header for a chain and
  height at which the lookup finds a header, and let storing other headers and updating
  peer sets not disturb that lookup. Then the call fails, and the lookup finds the same
  header in the state the call leaves. If the headers before it in the call are all
  accepted, the error is \<open>DuplicateHeader\<close> for that chain and height and the state left
  is the one reached by accepting those headers. If it is the first header of the call,
  the state left is the state given: stored headers and peer sets are unchanged.
\<close>

theorem SyncBlockHeader_duplicate:
  assumes "SyncParamDeserialization env n = Inr params"
    and "Headers params = pre @ v # post"
    and "HeaderFromRawBytes env v = Inr header"
    and "GetHeaderByHeight env n (ShardID header) (Height_hdr header) = Inr found"
    and "lookup_framed env (ShardID header) (Height_hdr header)"
  shows "snd (SyncBlockHeader env n) \<noteq> None
       \<and> GetHeaderByHeight env (fst (SyncBlockHeader env n)) (ShardID header) (Height_hdr header) =
           Inr found
       \<and> (\<forall>m. syncHeaders env (Address params) n pre = (m, None) \<longrightarrow>
             SyncBlockHeader env n =
               (m, Some (DuplicateHeader (ShardID header) (Height_hdr header))))
       \<and> (pre = [] \<longrightarrow>
             SyncBlockHeader env n =
               (n, Some (DuplicateHeader (ShardID header) (Height_hdr header))))"
proof -
  have eq: "SyncBlockHeader env n = syncHeaders env (Address params) n (pre @ v # post)"
    using assms(1,2) by (simp add: SyncBlockHeader_def)
  have a: "snd (SyncBlockHeader env n) \<noteq> None"
    unfolding eq by (rule syncHeaders_duplicate_fails [OF assms(5,3,4)])
  have b: "GetHeaderByHeight env (fst (SyncBlockHeader env n)) (ShardID header)
      (Height_hdr header) = Inr found"
    unfolding eq by (rule syncHeaders_keeps_found [OF assms(5,4)])
  have c: "SyncBlockHeader env n = (m, Some (DuplicateHeader (ShardID header) (Height_hdr header)))"
    if m: "syncHeaders env (Address params) n pre = (m, None)" for m
  proof -
    have "GetHeaderByHeight env (fst (syncHeaders env (Address params) n pre)) (ShardID header)
        (Height_hdr header) = Inr found"
      by (rule syncHeaders_keeps_found [OF assms(5,4)])
    then have "GetHeaderByHeight env m (ShardID header) (Height_hdr header) = Inr found"
      by (simp add: m)
    from syncHeaders_duplicate_at [OF assms(3) this] show ?thesis
      unfolding eq
      by (simp only: syncHeaders_append m split: prod.splits option.splits) simp
  qed
  have d: "SyncBlockHeader env n = (n, Some (DuplicateHeader (ShardID header) (Height_hdr header)))"
    if "pre = []"
    using c [of n] that by simp
  show ?thesis using a b c d by blast
qed

lemma registry_at5_input:
  "SyncParamDeserialization registry_env (registry_at5 vs) = Inr \<lparr>Address = [], Headers = vs\<rparr>"
  by (simp add: registry_env_def registry_at5_def)

lemma decode_raw5: "HeaderFromRawBytes registry_env raw5 = Inr header5"
  by (simp add: registry_env_def decode_header_def raw5_def header5_def)

lemma lookup_at5:
  "GetHeaderByHeight registry_env (registry_at5 vs) 3 5 = Inr header5"
  by (simp add: registry_env_def registry_at5_def)

lemma registry_env_framed: "lookup_framed registry_env c h"
  by (auto simp add: lookup_framed_def registry_env_def split: list.splits)

theorem SyncBlockHeader_duplicate_witness:
  "SyncParamDeserialization registry_env (registry_at5 [raw5, raw6]) =
     Inr \<lparr>Address = [], Headers = [raw5, raw6]\<rparr>
   \<and> HeaderFromRawBytes registry_env raw5 = Inr header5
   \<and> GetHeaderByHeight registry_env (registry_at5 [raw5, raw6]) 3 5 = Inr header5
   \<and> lookup_framed registry_env 3 5
   \<and> SyncBlockHeader registry_env (registry_at5 [raw5, raw6]) =
       (registry_at5 [raw5, raw6], Some (DuplicateHeader 3 5))
   \<and> GetHeaderByHeight registry_env (fst (SyncBlockHeader registry_env (registry_at5 [raw5, raw6])))
         3 5 = Inr header5"
proof -
  have s: "ShardID header5 = 3" "Height_hdr header5 = 5" by (simp_all add: header5_def)
  have g: "GetHeaderByHeight registry_env (registry_at5 [raw5, raw6]) (ShardID header5)
      (Height_hdr header5) = Inr header5"
    by (simp add: s lookup_at5)
  have f: "lookup_framed registry_env (ShardID header5) (Height_hdr header5)"
    by (rule registry_env_framed)
  have h: "Headers \<lparr>Address = [], Headers = [raw5, raw6]\<rparr> = [] @ raw5 # [raw6]" by simp
  show ?thesis
    using SyncBlockHeader_duplicate [OF registry_at5_input h decode_raw5 g f]
      registry_at5_input [of "[raw5, raw6]"] decode_raw5 lookup_at5 [of "[raw5, raw6]"]
      registry_env_framed [of 3 5]
    by (simp add: s)
qed

text \<open>
  Claim C2 as stated fails when the header for the known chain and height is not the first
  of the call: with height 5 of chain 3 stored, a call carrying a valid header for height
  6 followed by a header for height 5 fails with \<open>DuplicateHeader\<close>, but the state it
  leaves has the header of height 6 stored and the peer-set history extended by the
  rotation that header carries.
\<close>

theorem SyncBlockHeader_duplicate_later_changes_peers:
  "GetHeaderByHeight registry_env (registry_at5 [raw6, raw5]) 3 5 = Inr header5
   \<and> HeaderFromRawBytes registry_env raw5 = Inr header5
   \<and> snd (SyncBlockHeader registry_env (registry_at5 [raw6, raw5])) = Some (DuplicateHeader 3 5)
   \<and> peer_sets (registry_at5 [raw6, raw5]) = [(3, 0, [7])]
   \<and> peer_sets (fst (SyncBlockHeader registry_env (registry_at5 [raw6, raw5]))) =
       [(3, 0, [7]), (3, 6, [8])]
   \<and> stored_headers (registry_at5 [raw6, raw5]) (3, 6) = None
   \<and> stored_headers (fst (SyncBlockHeader registry_env (registry_at5 [raw6, raw5]))) (3, 6) =
       Some \<lparr>ShardID = 3, Height_hdr = 6, ConsensusPayload = [8], SigData = [ [7] ]\<rparr>"
  by (simp add: SyncBlockHeader_def registry_env_def registry_at5_def decode_header_def
      raw5_def raw6_def header5_def)

text \<open>
  Claim C3, as amended. When \<^verbatim>\<open>SyncBlockHeader\<close> fails, the submitted headers split into
  the headers before the failing one, the failing header \<open>v\<close> and the headers after it. The
  headers before \<open>v\<close> were accepted in full: the loop over them alone succeeds and leaves a
  state \<open>m\<close>. The failure and the state returned are those of processing \<open>v\<close> alone from
  \<open>m\<close>; the headers after \<open>v\<close> are not processed. If the failure is a decoding, duplicate or
  verification failure, the state left is \<open>m\<close>: nothing of the failing header is stored or
  applied to the peer set, and everything the earlier headers stored is kept. If
  \<^verbatim>\<open>PutBlockHeader\<close> fails on \<open>v\<close>, the state left is the one that call left. If
  \<^verbatim>\<open>UpdateConsensusPeer\<close> fails on \<open>v\<close>, \<^verbatim>\<open>PutBlockHeader\<close> had succeeded on \<open>m\<close> and the
  state left is the one \<^verbatim>\<open>UpdateConsensusPeer\<close> left from there: nothing is undone.
\<close>

theorem SyncBlockHeader_failure_state:
  assumes "SyncParamDeserialization env n = Inr params"
    and "SyncBlockHeader env n = (n', Some e)"
  shows "\<exists>pre v post m.
           Headers params = pre @ v # post
         \<and> syncHeaders env (Address params) n pre = (m, None)
         \<and> syncHeaders env (Address params) m [v] = (n', Some e)
         \<and> (rejected_before_store e \<longrightarrow> n' = m)
         \<and> (\<forall>x. e = PutBlockHeaderError x \<longrightarrow>
               (\<exists>header. HeaderFromRawBytes env v = Inr header
                  \<and> PutBlockHeader env m header = (n', Some x)))
         \<and> (\<forall>x. e = UpdateConsensusPeerError x \<longrightarrow>
               (\<exists>header m1. HeaderFromRawBytes env v = Inr header
                  \<and> PutBlockHeader env m header = (m1, None)
                  \<and> UpdateConsensusPeer env m1 header (Address params) = (n', Some x)))"
proof -
  have "syncHeaders env (Address params) n (Headers params) = (n', Some e)"
    using assms by (simp add: SyncBlockHeader_def)
  from syncHeaders_failure [OF this] obtain pre v post m where
    m: "Headers params = pre @ v # post" "syncHeaders env (Address params) n pre = (m, None)"
       "syncHeaders env (Address params) m [v] = (n', Some e)"
    by blast
  have r: "rejected_before_store e \<longrightarrow> n' = m"
    using syncHeaders_single_rejected [OF m(3)] by blast
  have p: "\<exists>header. HeaderFromRawBytes env v = Inr header \<and> PutBlockHeader env m header = (n', Some x)"
    if "e = PutBlockHeaderError x" for x
    by (rule syncHeaders_single_put_failed [OF m(3) [unfolded that] ])
  have u: "\<exists>header m1. HeaderFromRawBytes env v = Inr header
         \<and> PutBlockHeader env m header = (m1, None)
         \<and> UpdateConsensusPeer env m1 header (Address params) = (n', Some x)"
    if "e = UpdateConsensusPeerError x" for x
    by (rule syncHeaders_single_update_failed [OF m(3) [unfolded that] ])
  have "Headers params = pre @ v # post
       \<and> syncHeaders env (Address params) n pre = (m, None)
       \<and> syncHeaders env (Address params) m [v] = (n', Some e)
       \<and> (rejected_before_store e \<longrightarrow> n' = m)
       \<and> (\<forall>x. e = PutBlockHeaderError x \<longrightarrow>
             (\<exists>header. HeaderFromRawBytes env v = Inr header
                \<and> PutBlockHeader env m header = (n', Some x)))
       \<and> (\<forall>x. e = UpdateConsensusPeerError x \<longrightarrow>
             (\<exists>header m1. HeaderFromRawBytes env v = Inr header
                \<and> PutBlockHeader env m header = (m1, None)
                \<and> UpdateConsensusPeer env m1 header (Address params) = (n', Some x)))"
    using m(1,2,3) r p u by simp
  then show ?thesis by (intro exI)
qed

theorem SyncBlockHeader_failure_state_witness:
  "SyncParamDeserialization registry_env (registry_at5 [raw6, raw7_unsigned]) =
     Inr \<lparr>Address = [], Headers = [raw6, raw7_unsigned]\<rparr>
   \<and> SyncBlockHeader registry_env (registry_at5 [raw6, raw7_unsigned]) =
       (registry_at6 [raw6, raw7_unsigned], Some (VerifyHeaderError BadSignature))
   \<and> rejected_before_store (VerifyHeaderError BadSignature :: registry_error sync_error)
   \<and> (\<exists>pre v post.
         [raw6, raw7_unsigned] = pre @ v # post
       \<and> syncHeaders registry_env [] (registry_at5 [raw6, raw7_unsigned]) pre =
           (registry_at6 [raw6, raw7_unsigned], None)
       \<and> syncHeaders registry_env [] (registry_at6 [raw6, raw7_unsigned]) [v] =
           (registry_at6 [raw6, raw7_unsigned], Some (VerifyHeaderError BadSignature)))"
proof -
  let ?n = "registry_at5 [raw6, raw7_unsigned]"
  let ?n' = "registry_at6 [raw6, raw7_unsigned]"
  have s: "SyncBlockHeader registry_env ?n = (?n', Some (VerifyHeaderError BadSignature))"
    by (simp add: SyncBlockHeader_def registry_env_def registry_at5_def registry_at6_def
        decode_header_def raw6_def raw7_unsigned_def header5_def header6_def)
  have r: "rejected_before_store (VerifyHeaderError BadSignature :: registry_error sync_error)"
    by (simp add: rejected_before_store_def)
  note t = SyncBlockHeader_failure_state [OF registry_at5_input s,
      unfolded SyncBlockHeaderParam.select_convs]
  from t obtain pre v post m where a:
    "[raw6, raw7_unsigned] = pre @ v # post"
    "syncHeaders registry_env [] ?n pre = (m, None)"
    "syncHeaders registry_env [] m [v] = (?n', Some (VerifyHeaderError BadSignature))"
    "rejected_before_store (VerifyHeaderError BadSignature :: registry_error sync_error)
       \<longrightarrow> ?n' = m"
    by blast
  from a(4) r have "?n' = m" by simp
  with a(1,2,3) have "\<exists>pre v post.
         [raw6, raw7_unsigned] = pre @ v # post
       \<and> syncHeaders registry_env [] ?n pre = (?n', None)
       \<and> syncHeaders registry_env [] ?n' [v] = (?n', Some (VerifyHeaderError BadSignature))"
    by blast
  then show ?thesis using registry_at5_input [of "[raw6, raw7_unsigned]"] s r by simp
qed

text \<open>
  Claim C3 as stated fails when the peer-set update fails: a header for height 6 whose
  signature verifies but whose consensus payload is malformed is stored by
  \<^verbatim>\<open>PutBlockHeader\<close>, then \<^verbatim>\<open>UpdateConsensusPeer\<close> fails and \<^verbatim>\<open>SyncBlockHeader\<close> returns the
  error; the state it leaves holds the header while the peer-set history is as before.
\<close>

theorem SyncBlockHeader_update_failure_keeps_header:
  "snd (SyncBlockHeader registry_env (registry_at5 [raw6_malformed])) =
     Some (UpdateConsensusPeerError MalformedPayload)
   \<and> stored_headers (registry_at5 [raw6_malformed]) (3, 6) = None
   \<and> stored_headers (fst (SyncBlockHeader registry_env (registry_at5 [raw6_malformed]))) (3, 6) =
       Some \<lparr>ShardID = 3, Height_hdr = 6, ConsensusPayload = [8, 9], SigData = [ [7] ]\<rparr>
   \<and> peer_sets (fst (SyncBlockHeader registry_env (registry_at5 [raw6_malformed]))) =
       peer_sets (registry_at5 [raw6_malformed])"
  by (simp add: SyncBlockHeader_def registry_env_def registry_at5_def decode_header_def
      raw6_malformed_def header5_def)

text \<open>
  Claim C8 fails on \<^verbatim>\<open>SyncBlockHeader\<close>: line 88 treats every error of
  \<^verbatim>\<open>GetHeaderByHeight\<close> as "no header there". With height 5 of chain 3 stored and the
  lookup failing with a storage error, a call carrying another header for height 5
  returns no error, and the stored header has been replaced.
\<close>

theorem SyncBlockHeader_swallows_lookup_failure:
  "GetHeaderByHeight registry_env (faulty_registry [raw5_replacement]) 3 5 = Inl StorageIO
   \<and> snd (SyncBlockHeader registry_env (faulty_registry [raw5_replacement])) = None
   \<and> stored_headers (faulty_registry [raw5_replacement]) (3, 5) = Some header5
   \<and> stored_headers (fst (SyncBlockHeader registry_env (faulty_registry [raw5_replacement])))
         (3, 5) =
       Some \<lparr>ShardID = 3, Height_hdr = 5, ConsensusPayload = [9], SigData = [ [7] ]\<rparr>"
  by (simp add: SyncBlockHeader_def registry_env_def faulty_registry_def registry_at5_def
      decode_header_def raw5_replacement_def header5_def)

section \<open>Properties of the block store\<close>

subsection \<open>Hashes and encodings\<close>

lemma Uint256_abstype [code abstype]: "Abs_Uint256 (Rep_Uint256 h) = h"
  by (rule Rep_Uint256_inverse)

lemma Rep_Uint256_of [code abstract]:
  "Rep_Uint256 (Uint256_of bs) = take 32 (bs @ replicate 32 0)"
  by (simp add: Uint256_of_def Abs_Uint256_inverse)

lemma ToArray_Uint256_of [simp]:
  "ToArray (Uint256_of bs) = take 32 (bs @ replicate 32 0)"
  by (simp add: ToArray_def Rep_Uint256_of)

lemma length_ToArray [simp]: "length (ToArray h) = 32"
  using Rep_Uint256 [of h] by (simp add: ToArray_def)

lemma Uint256_of_ToArray [simp]: "Uint256_of (ToArray h @ rest) = h"
  using Rep_Uint256 [of h] by (simp add: ToArray_def Uint256_of_def Rep_Uint256_inverse)

lemma ToArray_inject [simp]: "ToArray a = ToArray b \<longleftrightarrow> a = b"
  by (simp add: ToArray_def Rep_Uint256_inject)

lemma NextHash_ToArray [simp]: "NextHash (ToArray h @ rest) = Some (h, rest)"
  using Uint256_of_ToArray [of h "[]"] by (simp add: NextHash_def)

lemma NextUint32_WriteUint32 [simp]: "NextUint32 (WriteUint32 w @ rest) = Some (w, rest)"
proof -
  have "ucast (ucast w :: byte) OR push_bit 8 (ucast (ucast (drop_bit 8 w) :: byte))
        OR push_bit 16 (ucast (ucast (drop_bit 16 w) :: byte))
        OR push_bit 24 (ucast (ucast (drop_bit 24 w) :: byte)) = w"
  proof (rule bit_word_eqI)
    fix n :: nat
    assume n: "n < LENGTH(32)"
    consider "n < 8" | "8 \<le> n" "n < 16" | "16 \<le> n" "n < 24" | "24 \<le> n"
      by linarith
    then show "bit (ucast (ucast w :: byte) OR push_bit 8 (ucast (ucast (drop_bit 8 w) :: byte))
        OR push_bit 16 (ucast (ucast (drop_bit 16 w) :: byte))
        OR push_bit 24 (ucast (ucast (drop_bit 24 w) :: byte)) :: u32) n = bit w n"
      using n by cases (auto simp add: bit_simps)
  qed
  then show ?thesis by (simp add: NextUint32_def WriteUint32_def)
qed

lemma length_WriteUint32 [simp]: "length (WriteUint32 w) = 4"
  by (simp add: WriteUint32_def)

lemma nextHashes_concat:
  "nextHashes (length xs) (concat (map (\<lambda>x. ToArray (f x)) xs) @ rest) = Some (map f xs)"
  by (induction xs) simp_all

subsection \<open>The cache as a map\<close>

lemma map_of_filter_other:
  "k' \<noteq> k \<Longrightarrow> map_of (filter (\<lambda>e. fst e \<noteq> k) xs) k' = map_of xs k'"
  by (induction xs) auto

lemma map_of_filter_same: "map_of (filter (\<lambda>e. fst e \<noteq> k) xs) k = None"
  by (induction xs) auto

lemma map_of_take: "map_of (take n ys) k = None \<or> map_of (take n ys) k = map_of ys k"
proof (induction ys arbitrary: n)
  case Nil
  then show ?case by simp
next
  case (Cons y ys)
  show ?case
  proof (cases n)
    case 0
    then show ?thesis by simp
  next
    case (Suc m)
    with Cons [of m] show ?thesis by (cases y) auto
  qed
qed

lemma lru_get_fst [simp]: "fst (lru_get k xs) = map_of xs k"
  by (simp add: lru_get_def split: option.splits)

lemma lru_get_map [simp]: "map_of (snd (lru_get k xs)) = map_of xs"
proof
  fix k'
  show "map_of (snd (lru_get k xs)) k' = map_of xs k'"
    by (cases "k' = k") (auto simp add: lru_get_def map_of_filter_other split: option.splits)
qed

lemma lru_add_same:
  "map_of (lru_add cap k v xs) k = None \<or> map_of (lru_add cap k v xs) k = Some v"
  using map_of_take [of cap "(k, v) # filter (\<lambda>e. fst e \<noteq> k) xs" k]
  by (simp add: lru_add_def)

lemma lru_add_other:
  assumes "k' \<noteq> k"
  shows "map_of (lru_add cap k v xs) k' = None \<or> map_of (lru_add cap k v xs) k' = map_of xs k'"
  using map_of_take [of cap "(k, v) # filter (\<lambda>e. fst e \<noteq> k) xs" k'] assms
  by (simp add: lru_add_def map_of_filter_other)

subsection \<open>Reads as functions of the view\<close>

lemma cache_GetTransaction_fst [simp]:
  "fst (cache_GetTransaction bc h) = map_of (transactionCache bc) (ToArray h)"
proof -
  obtain r xs where g: "lru_get (ToArray h) (transactionCache bc) = (r, xs)" by fastforce
  then show ?thesis
    using lru_get_fst [of "ToArray h" "transactionCache bc"]
    by (simp add: cache_GetTransaction_def)
qed

lemma cache_GetTransaction_snd [simp]:
  "map_of (transactionCache (snd (cache_GetTransaction bc h))) = map_of (transactionCache bc)"
  "blockCache (snd (cache_GetTransaction bc h)) = blockCache bc"
proof -
  obtain r xs where g: "lru_get (ToArray h) (transactionCache bc) = (r, xs)" by fastforce
  then show "map_of (transactionCache (snd (cache_GetTransaction bc h))) =
      map_of (transactionCache bc)"
    using lru_get_map [of "ToArray h" "transactionCache bc"]
    by (simp add: cache_GetTransaction_def)
  show "blockCache (snd (cache_GetTransaction bc h)) = blockCache bc"
    by (simp add: cache_GetTransaction_def g)
qed

lemma cache_GetBlock_fst [simp]:
  "fst (cache_GetBlock bc h) = map_of (blockCache bc) (ToArray h)"
proof -
  obtain r xs where g: "lru_get (ToArray h) (blockCache bc) = (r, xs)" by fastforce
  then show ?thesis
    using lru_get_fst [of "ToArray h" "blockCache bc"]
    by (simp add: cache_GetBlock_def)
qed

lemma cache_GetBlock_snd [simp]:
  "map_of (blockCache (snd (cache_GetBlock bc h))) = map_of (blockCache bc)"
  "transactionCache (snd (cache_GetBlock bc h)) = transactionCache bc"
proof -
  obtain r xs where g: "lru_get (ToArray h) (blockCache bc) = (r, xs)" by fastforce
  then show "map_of (blockCache (snd (cache_GetBlock bc h))) = map_of (blockCache bc)"
    using lru_get_map [of "ToArray h" "blockCache bc"]
    by (simp add: cache_GetBlock_def)
  show "transactionCache (snd (cache_GetBlock bc h)) = transactionCache bc"
    by (simp add: cache_GetBlock_def g)
qed

lemma readTransaction_store:
  "store bs' = store bs \<Longrightarrow> readTransaction c bs' h = readTransaction c bs h"
  by (simp add: readTransaction_def)

lemma loadHeaderWithTx_store:
  "store bs' = store bs \<Longrightarrow> loadHeaderWithTx c bs' h = loadHeaderWithTx c bs h"
  by (simp add: loadHeaderWithTx_def)


lemma lookupTransaction_view:
  "view bs' = view bs \<Longrightarrow> lookupTransaction c bs' h = lookupTransaction c bs h"
  by (simp add: lookupTransaction_def view_def readTransaction_def split: option.splits)

lemma lookupTransactions_view:
  assumes "view bs' = view bs"
  shows "lookupTransactions c bs' hs = lookupTransactions c bs hs"
proof (induction hs)
  case Nil
  show ?case by simp
next
  case (Cons h hs)
  then show ?case
    by (simp add: lookupTransaction_view [OF assms] split: sum.splits prod.splits)
qed

lemma loadTransaction_result:
  "fst (loadTransaction c bs h) = lookupTransaction c bs h"
  "view (snd (loadTransaction c bs h)) = view bs"
proof -
  obtain r bc where g: "cache_GetTransaction (cache bs) h = (r, bc)" by fastforce
  have r: "r = map_of (transactionCache (cache bs)) (ToArray h)"
    using cache_GetTransaction_fst [of "cache bs" h] g by simp
  have m: "map_of (transactionCache bc) = map_of (transactionCache (cache bs))"
    "blockCache bc = blockCache (cache bs)"
    using cache_GetTransaction_snd [of "cache bs" h] g by simp_all
  have v: "view (bs\<lparr>cache := bc\<rparr>) = view bs"
    using m by (simp add: view_def tx_cached_def block_cached_def fun_eq_iff)
  have s: "store (bs\<lparr>cache := bc\<rparr>) = store bs" by simp
  show "fst (loadTransaction c bs h) = lookupTransaction c bs h"
  proof (cases "enableCache bs")
    case False
    then show ?thesis by (simp add: loadTransaction_def lookupTransaction_def tx_cached_def)
  next
    case True
    show ?thesis
    proof (cases r)
      case None
      then show ?thesis
        using True r readTransaction_store [OF s, of c h]
        by (simp add: loadTransaction_def g lookupTransaction_def tx_cached_def)
    next
      case (Some a)
      then show ?thesis
        using True r by (cases a) (simp add: loadTransaction_def g lookupTransaction_def tx_cached_def)
    qed
  qed
  show "view (snd (loadTransaction c bs h)) = view bs"
  proof (cases "enableCache bs")
    case False
    then show ?thesis by (simp add: loadTransaction_def)
  next
    case True
    show ?thesis
    proof (cases r)
      case None
      then show ?thesis using True v by (simp add: loadTransaction_def g)
    next
      case (Some a)
      then show ?thesis using True v by (cases a) (simp add: loadTransaction_def g)
    qed
  qed
qed

lemma GetTransaction_result:
  "fst (GetTransaction c bs h) = lookupTransaction c bs h"
  "view (snd (GetTransaction c bs h)) = view bs"
proof -
  obtain r bc where g: "cache_GetTransaction (cache bs) h = (r, bc)" by fastforce
  have r: "r = map_of (transactionCache (cache bs)) (ToArray h)"
    using cache_GetTransaction_fst [of "cache bs" h] g by simp
  have m: "map_of (transactionCache bc) = map_of (transactionCache (cache bs))"
    "blockCache bc = blockCache (cache bs)"
    using cache_GetTransaction_snd [of "cache bs" h] g by simp_all
  have v: "view (bs\<lparr>cache := bc\<rparr>) = view bs"
    using m by (simp add: view_def tx_cached_def block_cached_def fun_eq_iff)
  show "fst (GetTransaction c bs h) = lookupTransaction c bs h"
  proof (cases "enableCache bs")
    case False
    then show ?thesis by (simp add: GetTransaction_def loadTransaction_result)
  next
    case True
    show ?thesis
    proof (cases r)
      case None
      then show ?thesis
        using True lookupTransaction_view [OF v]
        by (simp add: GetTransaction_def g loadTransaction_result)
    next
      case (Some a)
      then show ?thesis
        using True r by (cases a) (simp add: GetTransaction_def g lookupTransaction_def tx_cached_def)
    qed
  qed
  show "view (snd (GetTransaction c bs h)) = view bs"
  proof (cases "enableCache bs")
    case False
    then show ?thesis by (simp add: GetTransaction_def loadTransaction_result)
  next
    case True
    show ?thesis
    proof (cases r)
      case None
      then show ?thesis
        using True v by (simp add: GetTransaction_def g loadTransaction_result)
    next
      case (Some a)
      then show ?thesis
        using True v by (cases a) (simp add: GetTransaction_def g)
    qed
  qed
qed

lemma getTransactions_result:
  "fst (getTransactions c bs hs) = lookupTransactions c bs hs
   \<and> view (snd (getTransactions c bs hs)) = view bs"
proof (induction hs arbitrary: bs)
  case Nil
  show ?case by simp
next
  case (Cons h hs)
  obtain r bs1 where g: "GetTransaction c bs h = (r, bs1)" by fastforce
  have r: "r = lookupTransaction c bs h" and v: "view bs1 = view bs"
    using GetTransaction_result [of c bs h] g by simp_all
  show ?case
  proof (cases r)
    case (Inl e)
    then show ?thesis using r v by (simp add: g)
  next
    case (Inr p)
    obtain tx ht where p: "p = (tx, ht)" by (cases p)
    obtain r2 bs2 where g2: "getTransactions c bs1 hs = (r2, bs2)" by fastforce
    have r2: "r2 = lookupTransactions c bs hs" and v2: "view bs2 = view bs"
      using Cons [of bs1] g2 v lookupTransactions_view [OF v] by simp_all
    show ?thesis
      using Inr p r r2 v2 by (cases r2) (simp_all add: g g2 split: sum.splits)
  qed
qed

lemma GetBlock_miss:
  assumes "view bs0 = view bs"
  shows "fst (case loadHeaderWithTx c bs0 h of
                Inl e \<Rightarrow> (Inl e, bs0)
              | Inr (header, txHashes) \<Rightarrow>
                  (case getTransactions c bs0 txHashes of
                     (Inl e, bs1) \<Rightarrow> (Inl e, bs1)
                   | (Inr txList, bs1) \<Rightarrow> (Inr \<lparr>Header = header, Transactions = txList\<rparr>, bs1))) =
         (case loadHeaderWithTx c bs h of
            Inl e \<Rightarrow> Inl e
          | Inr (header, txHashes) \<Rightarrow>
              (case lookupTransactions c bs txHashes of
                 Inl e \<Rightarrow> Inl e
               | Inr txList \<Rightarrow> Inr \<lparr>Header = header, Transactions = txList\<rparr>))"
proof -
  have s: "store bs0 = store bs" using assms by (simp add: view_def)
  have l: "loadHeaderWithTx c bs0 h = loadHeaderWithTx c bs h"
    by (rule loadHeaderWithTx_store [OF s])
  show ?thesis
  proof (cases "loadHeaderWithTx c bs h")
    case (Inl e)
    then show ?thesis by (simp add: l)
  next
    case (Inr p)
    obtain header hs where p: "p = (header, hs)" by (cases p)
    obtain r2 bs2 where g2: "getTransactions c bs0 hs = (r2, bs2)" by fastforce
    have r2: "r2 = lookupTransactions c bs hs"
      using getTransactions_result [of c bs0 hs] g2 lookupTransactions_view [OF assms, of c hs]
      by simp
    show ?thesis
      by (cases r2) (simp_all add: l Inr p g2 r2 [symmetric])
  qed
qed

lemma GetBlock_result:
  "fst (GetBlock c bs h) =
     (case block_cached bs h of
        Some b \<Rightarrow> Inr b
      | None \<Rightarrow>
          (case loadHeaderWithTx c bs h of
             Inl e \<Rightarrow> Inl e
           | Inr (header, txHashes) \<Rightarrow>
               (case lookupTransactions c bs txHashes of
                  Inl e \<Rightarrow> Inl e
                | Inr txList \<Rightarrow> Inr \<lparr>Header = header, Transactions = txList\<rparr>)))"
proof (cases "enableCache bs")
  case False
  then show ?thesis
    using GetBlock_miss [of bs bs c h] by (simp add: GetBlock_def block_cached_def)
next
  case True
  obtain r bc where g: "cache_GetBlock (cache bs) h = (r, bc)" by fastforce
  have r: "r = map_of (blockCache (cache bs)) (ToArray h)"
    using cache_GetBlock_fst [of "cache bs" h] g by simp
  have m: "map_of (blockCache bc) = map_of (blockCache (cache bs))"
    "transactionCache bc = transactionCache (cache bs)"
    using cache_GetBlock_snd [of "cache bs" h] g by simp_all
  have v: "view (bs\<lparr>cache := bc\<rparr>) = view bs"
    using m by (simp add: view_def tx_cached_def block_cached_def fun_eq_iff)
  show ?thesis
  proof (cases r)
    case (Some b)
    then show ?thesis using True r by (simp add: GetBlock_def g block_cached_def)
  next
    case None
    have b: "block_cached bs h = None" using True r None by (simp add: block_cached_def)
    show ?thesis
      using GetBlock_miss [OF v, of c h] by (simp add: GetBlock_def g True None b)
  qed
qed




lemma uncached_simps [simp]:
  "block_cached (uncached bs) h = None"
  "tx_cached (uncached bs) h = None"
  "store (uncached bs) = store bs"
  by (simp_all add: uncached_def block_cached_def tx_cached_def)

lemma lookupTransaction_uncached [simp]:
  "lookupTransaction c (uncached bs) h = readTransaction c bs h"
  by (simp add: lookupTransaction_def readTransaction_def)








subsection \<open>Missing transactions\<close>

lemma lookupTransactions_failure:
  assumes "t \<in> set hs" and "lookupTransaction c bs t = Inl e0"
  shows "\<exists>t' e. t' \<in> set hs \<and> lookupTransactions c bs hs = Inl (GetTransactionError t' e)"
  using assms(1)
proof (induction hs)
  case Nil
  then show ?case by simp
next
  case (Cons h hs)
  show ?case
  proof (cases "lookupTransaction c bs h")
    case (Inl e)
    then show ?thesis by auto
  next
    case (Inr p)
    then have "t \<noteq> h" using assms(2) by auto
    with Cons obtain t' e where
      "t' \<in> set hs" "lookupTransactions c bs hs = Inl (GetTransactionError t' e)"
      by auto
    then show ?thesis using Inr by (cases p) auto
  qed
qed

lemma lookupTransactions_first_failure:
  assumes "\<forall>x \<in> set pre. \<exists>r. lookupTransaction c bs x = Inr r"
    and "lookupTransaction c bs t = Inl e0"
  shows "lookupTransactions c bs (pre @ t # post) = Inl (GetTransactionError t e0)"
  using assms(1)
proof (induction pre)
  case Nil
  show ?case using assms(2) by simp
next
  case (Cons h pre)
  then obtain r where "lookupTransaction c bs h = Inr r" by auto
  then show ?case using Cons by (cases r) simp
qed

text \<open>
  Claim C6, as amended. Let neither the block nor the missing transaction be held in the
  cache (as when the cache is disabled). If the stored header of the block lists the hash
  of a transaction that is absent from the store, \<^verbatim>\<open>GetBlock\<close> fails with the error that
  wraps the failure of \<^verbatim>\<open>GetTransaction\<close> for a listed hash: it returns neither a block
  nor the bare not-found error. When every hash listed before the missing one is found,
  the error names the missing hash and wraps the store's not-found error.
\<close>

theorem GetBlock_missing_transaction:
  assumes "block_cached bs h = None"
    and "loadHeaderWithTx c bs h = Inr (header, txHashes)"
    and "txHashes = pre @ t # post"
    and "tx_cached bs t = None"
    and "store_Get (store bs) (getTransactionKey (prefix c) t) = Inl ErrNotFound"
  shows "(\<exists>t' e. t' \<in> set txHashes \<and> fst (GetBlock c bs h) = Inl (GetTransactionError t' e))
       \<and> ((\<forall>x \<in> set pre. \<exists>r. fst (GetTransaction c bs x) = Inr r) \<longrightarrow>
            fst (GetBlock c bs h) = Inl (GetTransactionError t (StoreError ErrNotFound)))"
proof -
  have l: "lookupTransaction c bs t = Inl (StoreError ErrNotFound)"
    using assms(4,5) by (simp add: lookupTransaction_def readTransaction_def)
  have g: "fst (GetBlock c bs h) = 
      (case lookupTransactions c bs txHashes of
         Inl e \<Rightarrow> Inl e
       | Inr txList \<Rightarrow> Inr \<lparr>Header = header, Transactions = txList\<rparr>)"
    using assms(1,2) by (simp add: GetBlock_result)
  have "t \<in> set txHashes" using assms(3) by simp
  from lookupTransactions_failure [OF this l] obtain t' e where
    "t' \<in> set txHashes" "lookupTransactions c bs txHashes = Inl (GetTransactionError t' e)"
    by blast
  then have a: "\<exists>t' e. t' \<in> set txHashes \<and> fst (GetBlock c bs h) = Inl (GetTransactionError t' e)"
    using g by auto
  have b: "fst (GetBlock c bs h) = Inl (GetTransactionError t (StoreError ErrNotFound))"
    if "\<forall>x \<in> set pre. \<exists>r. fst (GetTransaction c bs x) = Inr r"
  proof -
    have "\<forall>x \<in> set pre. \<exists>r. lookupTransaction c bs x = Inr r"
      using that by (simp add: GetTransaction_result)
    from lookupTransactions_first_failure [OF this l, of post] show ?thesis
      using g assms(3) by simp
  qed
  show ?thesis using a b by blast
qed

subsection \<open>Keys\<close>

text \<open>
  Claim C9. Each key the block store builds begins with the one-byte prefix of its record
  type; the prefixes of the five record types (header, transaction, block hash by
  height, current block, version) being pairwise distinct, keys of two different record
  types are never equal, whatever the hashes and the height.
\<close>

theorem keys_of_distinct_record_types:
  assumes "prefixes_distinct p"
  shows "hd (getHeaderKey p h) = DATA_HEADER p
       \<and> hd (getTransactionKey p t) = DATA_TRANSACTION p
       \<and> hd (getBlockHashKey p n) = DATA_BLOCK p
       \<and> hd (getCurrentBlockKey p) = SYS_CURRENT_BLOCK p
       \<and> hd (getVersionKey p) = SYS_VERSION p
       \<and> getHeaderKey p h \<noteq> getTransactionKey p t
       \<and> getHeaderKey p h \<noteq> getBlockHashKey p n
       \<and> getHeaderKey p h \<noteq> getCurrentBlockKey p
       \<and> getHeaderKey p h \<noteq> getVersionKey p
       \<and> getTransactionKey p t \<noteq> getBlockHashKey p n
       \<and> getTransactionKey p t \<noteq> getCurrentBlockKey p
       \<and> getTransactionKey p t \<noteq> getVersionKey p
       \<and> getBlockHashKey p n \<noteq> getCurrentBlockKey p
       \<and> getBlockHashKey p n \<noteq> getVersionKey p
       \<and> getCurrentBlockKey p \<noteq> getVersionKey p"
  using assms
  by (simp add: prefixes_distinct_def getHeaderKey_def getTransactionKey_def
      getBlockHashKey_def getCurrentBlockKey_def getVersionKey_def)

theorem keys_of_distinct_record_types_witness:
  "prefixes_distinct std_prefixes
   \<and> hd (getHeaderKey std_prefixes (Uint256_of [7])) = 1
   \<and> hd (getTransactionKey std_prefixes (Uint256_of [7])) = 2
   \<and> hd (getBlockHashKey std_prefixes 7) = 0
   \<and> getHeaderKey std_prefixes (Uint256_of [7]) \<noteq> getTransactionKey std_prefixes (Uint256_of [7])
   \<and> getHeaderKey std_prefixes (Uint256_of [7]) \<noteq> getBlockHashKey std_prefixes 7
   \<and> getCurrentBlockKey std_prefixes \<noteq> getVersionKey std_prefixes"
proof -
  have d: "prefixes_distinct std_prefixes"
    by (simp add: prefixes_distinct_def std_prefixes_def)
  have p: "DATA_HEADER std_prefixes = 1" "DATA_TRANSACTION std_prefixes = 2"
    "DATA_BLOCK std_prefixes = 0"
    by (simp_all add: std_prefixes_def)
  show ?thesis
    using keys_of_distinct_record_types [OF d, of "Uint256_of [7]" "Uint256_of [7]" 7] d
    by (simp add: p)
qed

subsection \<open>Direct and staged writes\<close>

text \<open>
  Claim C10. When \<^verbatim>\<open>SaveVersion\<close> succeeds, the version byte is in the store at once: the
  store returns it under the version key, \<^verbatim>\<open>GetVersion\<close> returns it, and the batch is
  untouched. \<^verbatim>\<open>SaveHeader\<close>, \<^verbatim>\<open>SaveTransaction\<close>, \<^verbatim>\<open>SaveCurrentBlock\<close> and \<^verbatim>\<open>SaveBlockHash\<close>
  leave the persisted content, and so every read of the store, as it was; each appends
  one write to the batch (\<^verbatim>\<open>SaveTransaction\<close> does when it succeeds). A successful
  \<^verbatim>\<open>CommitTo\<close> applies the staged writes, in order, to the persisted content.
\<close>

theorem direct_and_staged_writes:
  "(snd (SaveVersion c bs ver) = None \<longrightarrow>
      store_Get (store (fst (SaveVersion c bs ver))) (getVersionKey (prefix c)) = Inr [ver]
      \<and> GetVersion c (fst (SaveVersion c bs ver)) = Inr ver
      \<and> batch (store (fst (SaveVersion c bs ver))) = batch (store bs))
   \<and> store_Get (store (fst (SaveHeader c bs block))) = store_Get (store bs)
   \<and> db (store (fst (SaveHeader c bs block))) = db (store bs)
   \<and> batch (store (fst (SaveHeader c bs block))) =
       batch (store bs) @ [BatchPutOp (getHeaderKey (prefix c) (Block_Hash c block)) (headerValue c block)]
   \<and> store_Get (store (fst (SaveTransaction c bs tx height))) = store_Get (store bs)
   \<and> db (store (fst (SaveTransaction c bs tx height))) = db (store bs)
   \<and> (snd (SaveTransaction c bs tx height) = None \<longrightarrow>
        batch (store (fst (SaveTransaction c bs tx height))) = batch (store bs) @ [txOp c height tx])
   \<and> store_Get (store (fst (SaveCurrentBlock c bs height blockHash))) = store_Get (store bs)
   \<and> db (store (fst (SaveCurrentBlock c bs height blockHash))) = db (store bs)
   \<and> batch (store (fst (SaveCurrentBlock c bs height blockHash))) =
       batch (store bs) @ [BatchPutOp (getCurrentBlockKey (prefix c)) (ToArray blockHash @ WriteUint32 height)]
   \<and> store_Get (store (SaveBlockHash c bs height blockHash)) = store_Get (store bs)
   \<and> db (store (SaveBlockHash c bs height blockHash)) = db (store bs)
   \<and> batch (store (SaveBlockHash c bs height blockHash)) =
       batch (store bs) @ [BatchPutOp (getBlockHashKey (prefix c) height) (ToArray blockHash)]
   \<and> (snd (CommitTo bs :: _ \<times> 'e block_error option) = None \<longrightarrow>
        db (store (fst (CommitTo bs :: _ \<times> 'e block_error option))) =
          foldl apply_op (db (store bs)) (batch (store bs)))"
proof -
  have v: "snd (SaveVersion c bs ver) = None \<longrightarrow>
      store_Get (store (fst (SaveVersion c bs ver))) (getVersionKey (prefix c)) = Inr [ver]
      \<and> GetVersion c (fst (SaveVersion c bs ver)) = Inr ver
      \<and> batch (store (fst (SaveVersion c bs ver))) = batch (store bs)"
    by (simp add: SaveVersion_def GetVersion_def store_Put_def store_Get_def)
  have h: "store_Get (store (fst (SaveHeader c bs block))) = store_Get (store bs)
     \<and> db (store (fst (SaveHeader c bs block))) = db (store bs)
     \<and> batch (store (fst (SaveHeader c bs block))) =
       batch (store bs) @ [BatchPutOp (getHeaderKey (prefix c) (Block_Hash c block)) (headerValue c block)]"
    by (simp add: SaveHeader_def store_BatchPut_def store_Get_def fun_eq_iff)
  have t: "store_Get (store (fst (SaveTransaction c bs tx height))) = store_Get (store bs)
     \<and> db (store (fst (SaveTransaction c bs tx height))) = db (store bs)
     \<and> (snd (SaveTransaction c bs tx height) = None \<longrightarrow>
        batch (store (fst (SaveTransaction c bs tx height))) = batch (store bs) @ [txOp c height tx])"
    by (simp add: SaveTransaction_def putTransaction_def store_BatchPut_def store_Get_def
        fun_eq_iff txOp_def split: sum.splits)
  have cb: "store_Get (store (fst (SaveCurrentBlock c bs height blockHash))) = store_Get (store bs)
     \<and> db (store (fst (SaveCurrentBlock c bs height blockHash))) = db (store bs)
     \<and> batch (store (fst (SaveCurrentBlock c bs height blockHash))) =
       batch (store bs) @ [BatchPutOp (getCurrentBlockKey (prefix c)) (ToArray blockHash @ WriteUint32 height)]"
    by (simp add: SaveCurrentBlock_def store_BatchPut_def store_Get_def fun_eq_iff)
  have bh: "store_Get (store (SaveBlockHash c bs height blockHash)) = store_Get (store bs)
     \<and> db (store (SaveBlockHash c bs height blockHash)) = db (store bs)
     \<and> batch (store (SaveBlockHash c bs height blockHash)) =
       batch (store bs) @ [BatchPutOp (getBlockHashKey (prefix c) height) (ToArray blockHash)]"
    by (simp add: SaveBlockHash_def store_BatchPut_def store_Get_def fun_eq_iff)
  have ct: "snd (CommitTo bs :: _ \<times> 'e block_error option) = None \<longrightarrow>
        db (store (fst (CommitTo bs :: _ \<times> 'e block_error option))) =
          foldl apply_op (db (store bs)) (batch (store bs))"
    by (simp add: CommitTo_def store_BatchCommit_def)
  show ?thesis using v h t cb bh ct by simp
qed

subsection \<open>Saving a block and reading it back\<close>

lemma getTransactionKey_inject [simp]:
  "getTransactionKey p a = getTransactionKey p b \<longleftrightarrow> a = b"
  by (simp add: getTransactionKey_def)

lemma foldl_txOps_other:
  assumes "\<forall>tx \<in> set txs. getTransactionKey (prefix c) (Tx_Hash c tx) \<noteq> k"
  shows "foldl apply_op m (map (txOp c ht) txs) k = m k"
  using assms by (induction txs arbitrary: m) (auto simp add: txOp_def)

lemma foldl_txOps_member:
  assumes "inj_on (Tx_Hash c) (set txs)" and "tx \<in> set txs"
    and "WriteBytes c (Tx_Raw c tx) = Inr w"
  shows "foldl apply_op m (map (txOp c ht) txs) (getTransactionKey (prefix c) (Tx_Hash c tx)) =
           Some (WriteUint32 ht @ w)"
  using assms(1,2)
proof (induction txs arbitrary: m)
  case Nil
  then show ?case by simp
next
  case (Cons x xs)
  have inj: "inj_on (Tx_Hash c) (set xs)"
    using Cons.prems(1) by (simp add: inj_on_def)
  show ?case
  proof (cases "tx \<in> set xs")
    case True
    from Cons.IH [OF inj True] show ?thesis by simp
  next
    case False
    then have x: "x = tx" using Cons.prems(2) by simp
    have "\<forall>y \<in> set xs. getTransactionKey (prefix c) (Tx_Hash c y)
        \<noteq> getTransactionKey (prefix c) (Tx_Hash c tx)"
    proof
      fix y assume y: "y \<in> set xs"
      have "Tx_Hash c y \<noteq> Tx_Hash c tx"
      proof
        assume "Tx_Hash c y = Tx_Hash c tx"
        then have "y = tx"
          using Cons.prems(1) y x by (simp add: inj_on_def)
        then show False using y False by simp
      qed
      then show "getTransactionKey (prefix c) (Tx_Hash c y)
          \<noteq> getTransactionKey (prefix c) (Tx_Hash c tx)"
        by simp
    qed
    from foldl_txOps_other [OF this] show ?thesis
      by (simp add: x) (simp add: txOp_def assms(3))
  qed
qed

lemma SaveTransaction_effect:
  assumes "SaveTransaction c bs x ht = (bs', r)"
  shows "enableCache bs' = enableCache bs"
    and "block_cached bs' = block_cached bs"
    and "tx_cached bs' (Tx_Hash c x) = None \<or> tx_cached bs' (Tx_Hash c x) = Some (x, ht)"
    and "h \<noteq> Tx_Hash c x \<Longrightarrow> tx_cached bs' h = None \<or> tx_cached bs' h = tx_cached bs h"
    and "r = None \<Longrightarrow> store bs' = (store bs)\<lparr>batch := batch (store bs) @ [txOp c ht x]\<rparr>"
    and "r = None \<Longrightarrow> \<exists>w. WriteBytes c (Tx_Raw c x) = Inr w"
proof -
  let ?b = "if enableCache bs then bs\<lparr>cache := cache_AddTransaction c (cache bs) x ht\<rparr> else bs"
  have p: "putTransaction c ?b x ht = (bs', r)"
    using assms by (simp add: SaveTransaction_def)
  have c': "cache bs' = cache ?b" "enableCache bs' = enableCache ?b"
    using p by (auto simp add: putTransaction_def Let_def split: sum.splits)
  show "enableCache bs' = enableCache bs" using c' by simp
  show "block_cached bs' = block_cached bs"
    using c' by (auto simp add: block_cached_def cache_AddTransaction_def fun_eq_iff)
  show "tx_cached bs' (Tx_Hash c x) = None \<or> tx_cached bs' (Tx_Hash c x) = Some (x, ht)"
    using c' lru_add_same [of "transactionCacheSize (cache bs)" "ToArray (Tx_Hash c x)" "(x, ht)"
        "transactionCache (cache bs)"]
    by (auto simp add: tx_cached_def cache_AddTransaction_def)
  show "tx_cached bs' h = None \<or> tx_cached bs' h = tx_cached bs h" if "h \<noteq> Tx_Hash c x"
  proof -
    have "ToArray h \<noteq> ToArray (Tx_Hash c x)" using that by simp
    from lru_add_other [OF this, of "transactionCacheSize (cache bs)" "(x, ht)"
        "transactionCache (cache bs)"]
    show ?thesis using c' by (auto simp add: tx_cached_def cache_AddTransaction_def)
  qed
  show "store bs' = (store bs)\<lparr>batch := batch (store bs) @ [txOp c ht x]\<rparr>" if "r = None"
    using p that
    by (auto simp add: putTransaction_def Let_def txOp_def store_BatchPut_def split: sum.splits)
  show "\<exists>w. WriteBytes c (Tx_Raw c x) = Inr w" if "r = None"
    using p that by (auto simp add: putTransaction_def Let_def split: sum.splits)
qed

lemma saveTransactions_effect:
  assumes "saveTransactions c bs txs ht = (bs1, None)"
  shows "store bs1 = (store bs)\<lparr>batch := batch (store bs) @ map (txOp c ht) txs\<rparr>
       \<and> (\<forall>tx \<in> set txs. \<exists>w. WriteBytes c (Tx_Raw c tx) = Inr w)
       \<and> enableCache bs1 = enableCache bs
       \<and> block_cached bs1 = block_cached bs"
  using assms
proof (induction txs arbitrary: bs)
  case Nil
  then show ?case by simp
next
  case (Cons x xs)
  obtain bs' r where s: "SaveTransaction c bs x ht = (bs', r)" by fastforce
  have r: "r = None" using Cons.prems s by (cases r) simp_all
  have rest: "saveTransactions c bs' xs ht = (bs1, None)"
    using Cons.prems s r by simp
  note e = SaveTransaction_effect [OF s]
  from Cons.IH [OF rest] e(1,2) e(5,6) [OF r] show ?case by simp
qed

lemma saveTransactions_cache:
  assumes "saveTransactions c bs txs ht = (bs1, None)"
    and "inj_on (Tx_Hash c) (S \<union> set txs)"
    and "\<forall>tx \<in> S. tx_cached bs (Tx_Hash c tx) = None \<or> tx_cached bs (Tx_Hash c tx) = Some (tx, ht)"
  shows "\<forall>tx \<in> S \<union> set txs.
           tx_cached bs1 (Tx_Hash c tx) = None \<or> tx_cached bs1 (Tx_Hash c tx) = Some (tx, ht)"
  using assms
proof (induction txs arbitrary: bs S)
  case Nil
  then show ?case by simp
next
  case (Cons x xs)
  obtain bs' r where s: "SaveTransaction c bs x ht = (bs', r)" by fastforce
  have r: "r = None" using Cons.prems(1) s by (cases r) simp_all
  have rest: "saveTransactions c bs' xs ht = (bs1, None)"
    using Cons.prems(1) s r by simp
  note e = SaveTransaction_effect [OF s]
  have inj: "inj_on (Tx_Hash c) (insert x S \<union> set xs)"
    using Cons.prems(2) by (simp add: Un_commute insert_commute)
  have inv: "\<forall>tx \<in> insert x S.
      tx_cached bs' (Tx_Hash c tx) = None \<or> tx_cached bs' (Tx_Hash c tx) = Some (tx, ht)"
  proof
    fix tx assume tx: "tx \<in> insert x S"
    show "tx_cached bs' (Tx_Hash c tx) = None \<or> tx_cached bs' (Tx_Hash c tx) = Some (tx, ht)"
    proof (cases "Tx_Hash c tx = Tx_Hash c x")
      case True
      have "tx = x"
        using Cons.prems(2) tx True by (auto simp add: inj_on_def)
      then show ?thesis using e(3) by simp
    next
      case False
      then have "tx \<in> S" using tx by auto
      then show ?thesis using e(4) [OF False] Cons.prems(3) by auto
    qed
  qed
  from Cons.IH [OF rest inj inv] show ?case by simp
qed

lemma lookupTransactions_all:
  assumes "\<forall>tx \<in> set txs. lookupTransaction c bs (Tx_Hash c tx) = Inr (tx, ht)"
  shows "lookupTransactions c bs (map (Tx_Hash c) txs) = Inr txs"
  using assms by (induction txs) simp_all

lemma unat_of_nat_length:
  assumes "length (xs :: 'a list) < 2 ^ 32"
  shows "unat (of_nat (length xs) :: u32) = length xs"
  using assms by (simp add: unat_of_nat)

text \<open>
  Claim C4, as amended. Let the encodings read back what they write for the block \<open>B\<close>,
  let no two transactions of \<open>B\<close> share a hash, let \<open>B\<close> have fewer than \<open>2^32\<close>
  transactions and let the prefixes of headers and transactions differ. If \<^verbatim>\<open>SaveBlock\<close> succeeds on \<open>B\<close> and
  \<^verbatim>\<open>CommitTo\<close> then succeeds, \<^verbatim>\<open>GetBlock\<close> on the hash of \<open>B\<close> returns \<open>B\<close>: its header and
  its transactions in their order. This holds with the cache enabled or disabled, and
  whatever the store, the batch and the cache held before.
\<close>

theorem SaveBlock_then_GetBlock:
  assumes "block_encodable c B"
    and "length (Transactions B) < 2 ^ 32"
    and "DATA_HEADER (prefix c) \<noteq> DATA_TRANSACTION (prefix c)"
    and "SaveBlock c bs B = (bs1, None)"
    and "CommitTo bs1 = (bs2, (None :: 'e block_error option))"
  shows "fst (GetBlock c bs2 (Block_Hash c B)) = Inr B"
proof -
  let ?ht = "Header_Height c (Header B)"
  let ?hk = "getHeaderKey (prefix c) (Block_Hash c B)"
  let ?b0 = "if enableCache bs then bs\<lparr>cache := cache_AddBlock c (cache bs) B\<rparr> else bs"
  let ?b1 = "?b0\<lparr>store := store_BatchPut (store ?b0) ?hk (headerValue c B)\<rparr>"
  have enc: "\<And>rest. Header_Deserialization c (Header_Serialization c (Header B) @ rest) =
      Inr (Header B, rest)"
    and dec: "\<And>tx w. tx \<in> set (Transactions B) \<Longrightarrow> WriteBytes c (Tx_Raw c tx) = Inr w
      \<Longrightarrow> Tx_Deserialization c w = Inr tx"
    and inj: "inj_on (Tx_Hash c) (set (Transactions B))"
    using assms(1) by (auto simp add: block_encodable_def)
  have st: "saveTransactions c ?b1 (Transactions B) ?ht = (bs1, None)"
    using assms(4) by (simp add: SaveBlock_def SaveHeader_def Let_def)
  note eff = saveTransactions_effect [OF st]
  have store1: "store bs1 = (store bs)\<lparr>batch := batch (store bs) @
      BatchPutOp ?hk (headerValue c B) # map (txOp c ?ht) (Transactions B)\<rparr>"
    using eff by (simp add: store_BatchPut_def)
  have written: "\<forall>tx \<in> set (Transactions B). \<exists>w. WriteBytes c (Tx_Raw c tx) = Inr w"
    using eff by simp
  have bc1: "block_cached bs1 (Block_Hash c B) = None \<or> block_cached bs1 (Block_Hash c B) = Some B"
    using eff lru_add_same [of "blockCacheSize (cache bs)" "ToArray (Block_Hash c B)" B
        "blockCache (cache bs)"]
    by (auto simp add: block_cached_def cache_AddBlock_def)
  have tc0: "\<forall>tx \<in> {}. tx_cached ?b1 (Tx_Hash c tx) = None
      \<or> tx_cached ?b1 (Tx_Hash c tx) = Some (tx, ?ht)"
    by simp
  have tc1: "\<forall>tx \<in> set (Transactions B).
      tx_cached bs1 (Tx_Hash c tx) = None \<or> tx_cached bs1 (Tx_Hash c tx) = Some (tx, ?ht)"
    using saveTransactions_cache [OF st _ tc0] inj by simp
  have nofault: "\<not> io_fault (store bs1)"
    using assms(5) by (auto simp add: CommitTo_def store_BatchCommit_def split: if_splits)
  have bs2: "bs2 = bs1\<lparr>store := (store bs1)\<lparr>db := foldl apply_op (db (store bs1)) (batch (store bs1)),
      batch := []\<rparr>\<rparr>"
    using assms(5) nofault by (simp add: CommitTo_def store_BatchCommit_def)
  have cache2: "block_cached bs2 = block_cached bs1" "tx_cached bs2 = tx_cached bs1"
    by (simp_all add: bs2 block_cached_def tx_cached_def fun_eq_iff)
  let ?m = "foldl apply_op (db (store bs)) (batch (store bs))"
  have db2: "db (store bs2) = foldl apply_op (?m(?hk \<mapsto> headerValue c B))
      (map (txOp c ?ht) (Transactions B))"
    by (simp add: bs2 store1)
  have nf2: "\<not> io_fault (store bs2)" using nofault by (simp add: bs2)
  have hdr: "db (store bs2) ?hk = Some (headerValue c B)"
  proof -
    have "\<forall>tx \<in> set (Transactions B). getTransactionKey (prefix c) (Tx_Hash c tx) \<noteq> ?hk"
      using assms(3) by (simp add: getTransactionKey_def getHeaderKey_def)
    from foldl_txOps_other [OF this] show ?thesis by (simp add: db2)
  qed
  have n: "unat (of_nat (length (Transactions B)) :: u32) = length (Transactions B)"
    by (rule unat_of_nat_length [OF assms(2)])
  have hashes: "nextHashes (length (Transactions B))
      (concat (map (\<lambda>tx. ToArray (Tx_Hash c tx)) (Transactions B))) =
      Some (map (Tx_Hash c) (Transactions B))"
    using nextHashes_concat [of "Transactions B" "Tx_Hash c" "[]"] by simp
  have load: "loadHeaderWithTx c bs2 (Block_Hash c B) =
      Inr (Header B, map (Tx_Hash c) (Transactions B))"
    unfolding loadHeaderWithTx_def store_Get_def
    by (simp add: nf2 hdr headerValue_def enc n hashes)
  have look: "\<forall>tx \<in> set (Transactions B). lookupTransaction c bs2 (Tx_Hash c tx) = Inr (tx, ?ht)"
  proof
    fix tx assume tx: "tx \<in> set (Transactions B)"
    from written tx obtain w where w: "WriteBytes c (Tx_Raw c tx) = Inr w" by blast
    have v: "db (store bs2) (getTransactionKey (prefix c) (Tx_Hash c tx)) = Some (WriteUint32 ?ht @ w)"
      using foldl_txOps_member [OF inj tx w] by (simp add: db2)
    have rd: "readTransaction c bs2 (Tx_Hash c tx) = Inr (tx, ?ht)"
      by (simp add: readTransaction_def store_Get_def nf2 v decodeTransaction_def dec [OF tx w])
    show "lookupTransaction c bs2 (Tx_Hash c tx) = Inr (tx, ?ht)"
      using tc1 tx rd by (auto simp add: lookupTransaction_def cache2)
  qed
  have all: "lookupTransactions c bs2 (map (Tx_Hash c) (Transactions B)) = Inr (Transactions B)"
    by (rule lookupTransactions_all [OF look])
  show ?thesis
    using bc1 by (auto simp add: GetBlock_result cache2 load all)
qed

subsection \<open>The store on explicit inputs\<close>

lemma Uint256_of_eq_iff:
  "Uint256_of xs = Uint256_of ys \<longleftrightarrow> take 32 (xs @ replicate 32 0) = take 32 (ys @ replicate 32 0)"
  using ToArray_inject [of "Uint256_of xs" "Uint256_of ys"] by (simp del: ToArray_inject)

lemma block5_encodable: "block_encodable plain_codec block5"
  by (simp add: block_encodable_def plain_codec_def block5_def inj_on_def Uint256_of_eq_iff)

theorem SaveBlock_then_GetBlock_witness:
  "block_encodable plain_codec block5
   \<and> length (Transactions block5) < 2 ^ 32
   \<and> DATA_HEADER (prefix plain_codec) \<noteq> DATA_TRANSACTION (prefix plain_codec)
   \<and> SaveBlock plain_codec (NewBatch warm_store) block5 = (saved_block5, None)
   \<and> CommitTo saved_block5 = (committed saved_block5, (None :: codec_error block_error option))
   \<and> fst (GetBlock plain_codec (committed saved_block5) (Block_Hash plain_codec block5)) = Inr block5"
proof -
  have l: "length (Transactions block5) < 2 ^ 32" by (simp add: block5_def)
  have p: "DATA_HEADER (prefix plain_codec) \<noteq> DATA_TRANSACTION (prefix plain_codec)"
    by (simp add: plain_codec_def std_prefixes_def)
  have "snd (SaveBlock plain_codec (NewBatch warm_store) block5) = None"
    by code_simp
  then have s: "SaveBlock plain_codec (NewBatch warm_store) block5 = (saved_block5, None)"
    by (simp add: prod_eq_iff saved_block5_def)
  have "snd (CommitTo saved_block5 :: _ \<times> codec_error block_error option) = None"
    by code_simp
  then have c: "CommitTo saved_block5 = (committed saved_block5, (None :: codec_error block_error option))"
    by (simp add: prod_eq_iff committed_def)
  show ?thesis
    using SaveBlock_then_GetBlock [OF block5_encodable l p s c] block5_encodable l p s c
    by simp
qed

lemma saveTransactions_succeeds:
  assumes "\<forall>tx \<in> set txs. \<exists>w. WriteBytes c (Tx_Raw c tx) = Inr w"
  shows "snd (saveTransactions c bs txs ht) = None"
  using assms
proof (induction txs arbitrary: bs)
  case Nil
  show ?case by simp
next
  case (Cons x xs)
  then obtain w where w: "WriteBytes c (Tx_Raw c x) = Inr w" by auto
  obtain bs' where s: "SaveTransaction c bs x ht = (bs', None)"
    by (simp add: SaveTransaction_def putTransaction_def Let_def w)
  show ?case using Cons s by simp
qed

lemma SaveBlock_committed_header:
  assumes "DATA_HEADER (prefix c) \<noteq> DATA_TRANSACTION (prefix c)"
    and "SaveBlock c bs B = (bs1, None)"
    and "CommitTo bs1 = (bs2, (None :: 'e block_error option))"
  shows "store_Get (store bs2) (getHeaderKey (prefix c) (Block_Hash c B)) = Inr (headerValue c B)"
    and "enableCache bs2 = enableCache bs"
proof -
  let ?ht = "Header_Height c (Header B)"
  let ?hk = "getHeaderKey (prefix c) (Block_Hash c B)"
  let ?b0 = "if enableCache bs then bs\<lparr>cache := cache_AddBlock c (cache bs) B\<rparr> else bs"
  let ?b1 = "?b0\<lparr>store := store_BatchPut (store ?b0) ?hk (headerValue c B)\<rparr>"
  have st: "saveTransactions c ?b1 (Transactions B) ?ht = (bs1, None)"
    using assms(2) by (simp add: SaveBlock_def SaveHeader_def Let_def)
  note eff = saveTransactions_effect [OF st]
  have store1: "store bs1 = (store bs)\<lparr>batch := batch (store bs) @
      BatchPutOp ?hk (headerValue c B) # map (txOp c ?ht) (Transactions B)\<rparr>"
    using eff by (simp add: store_BatchPut_def)
  have nofault: "\<not> io_fault (store bs1)"
    using assms(3) by (auto simp add: CommitTo_def store_BatchCommit_def split: if_splits)
  have bs2: "bs2 = bs1\<lparr>store := (store bs1)\<lparr>db := foldl apply_op (db (store bs1)) (batch (store bs1)),
      batch := []\<rparr>\<rparr>"
    using assms(3) nofault by (simp add: CommitTo_def store_BatchCommit_def)
  let ?m = "foldl apply_op (db (store bs)) (batch (store bs))"
  have db2: "db (store bs2) = foldl apply_op (?m(?hk \<mapsto> headerValue c B))
      (map (txOp c ?ht) (Transactions B))"
    by (simp add: bs2 store1)
  have "\<forall>tx \<in> set (Transactions B). getTransactionKey (prefix c) (Tx_Hash c tx) \<noteq> ?hk"
    using assms(1) by (simp add: getTransactionKey_def getHeaderKey_def)
  from foldl_txOps_other [OF this] have "db (store bs2) ?hk = Some (headerValue c B)"
    by (simp add: db2)
  then show "store_Get (store bs2) ?hk = Inr (headerValue c B)"
    using nofault by (simp add: store_Get_def bs2)
  show "enableCache bs2 = enableCache bs"
    using eff by (simp add: bs2)
qed

text \<open>
  Claim C4 as stated fails for a block whose number of transactions does not fit in 32
  bits: \<^verbatim>\<open>SaveHeader\<close> writes the count \<^verbatim>\<open>uint32(len(block.Transactions))\<close>, which is 0 for
  \<open>2^32\<close> transactions, and \<^verbatim>\<open>GetBlock\<close> (cache disabled) then returns the block with no
  transactions.
\<close>

theorem SaveBlock_transaction_count_wraps:
  "length (Transactions big_block) = 2 ^ 32
   \<and> block_encodable plain_codec big_block
   \<and> snd (SaveBlock plain_codec (NewBatch cold_store) big_block) = None
   \<and> snd (CommitTo (fst (SaveBlock plain_codec (NewBatch cold_store) big_block))
          :: _ \<times> codec_error block_error option) = None
   \<and> fst (GetBlock plain_codec
          (committed (fst (SaveBlock plain_codec (NewBatch cold_store) big_block)))
          (Block_Hash plain_codec big_block)) = Inr \<lparr>Header = 5, Transactions = []\<rparr>"
proof -
  let ?bs1 = "fst (SaveBlock plain_codec (NewBatch cold_store) big_block)"
  have len: "length (Transactions big_block) = 2 ^ 32"
    by (simp add: big_block_def)
  have enc: "block_encodable plain_codec big_block"
    by (simp add: block_encodable_def plain_codec_def big_block_def)
  have wr: "\<forall>tx \<in> set (Transactions big_block). \<exists>w. WriteBytes plain_codec (Tx_Raw plain_codec tx) = Inr w"
    by (simp add: plain_codec_def)
  have ok: "snd (SaveBlock plain_codec (NewBatch cold_store) big_block) = None"
    using saveTransactions_succeeds [OF wr]
    by (simp add: SaveBlock_def SaveHeader_def Let_def)
  then have s: "SaveBlock plain_codec (NewBatch cold_store) big_block = (?bs1, None)"
    by (simp add: prod_eq_iff)
  have st: "saveTransactions plain_codec
      (fst (SaveHeader plain_codec (NewBatch cold_store) big_block))
      (Transactions big_block) (Header_Height plain_codec (Header big_block)) = (?bs1, None)"
    using s by (simp add: SaveBlock_def SaveHeader_def Let_def cold_store_def NewBlockStore_def
        NewBatch_def)
  have nf: "\<not> io_fault (store ?bs1)"
    using saveTransactions_effect [OF st]
    by (simp add: SaveHeader_def Let_def cold_store_def NewBlockStore_def NewBatch_def
        store_BatchPut_def store_NewBatch_def empty_store_def)
  then have ck: "snd (CommitTo ?bs1 :: _ \<times> codec_error block_error option) = None"
    by (simp add: CommitTo_def store_BatchCommit_def)
  then have c: "CommitTo ?bs1 = (committed ?bs1, (None :: codec_error block_error option))"
    by (simp add: prod_eq_iff committed_def)
  have p: "DATA_HEADER (prefix plain_codec) \<noteq> DATA_TRANSACTION (prefix plain_codec)"
    by (simp add: plain_codec_def std_prefixes_def)
  note h = SaveBlock_committed_header [OF p s c]
  have en: "\<not> enableCache (committed ?bs1)"
    using h(2) by (simp add: cold_store_def NewBlockStore_def NewBatch_def)
  have zero: "(of_nat (length (Transactions big_block)) :: u32) = 0"
    by (simp add: big_block_def)
  have hv: "headerValue plain_codec big_block =
      WriteUint32 5 @ WriteUint32 0 @ concat (map (\<lambda>tx. ToArray (Uint256_of tx)) (Transactions big_block))"
    unfolding headerValue_def zero by (simp add: plain_codec_def big_block_def)
  have load: "loadHeaderWithTx plain_codec (committed ?bs1) (Block_Hash plain_codec big_block) =
      Inr (5, [])"
    unfolding loadHeaderWithTx_def h(1) hv by (simp add: plain_codec_def)
  have g: "fst (GetBlock plain_codec (committed ?bs1) (Block_Hash plain_codec big_block)) =
      Inr \<lparr>Header = 5, Transactions = []\<rparr>"
    using en by (simp add: GetBlock_result block_cached_def load)
  show ?thesis using len enc ok ck g by simp
qed


lemma header_and_first_tx_state:
  "block_cached header_and_first_tx (Block_Hash plain_codec block5) = None"
  "loadHeaderWithTx plain_codec header_and_first_tx (Block_Hash plain_codec block5) =
     Inr (5, [Tx_Hash plain_codec [1, 2], Tx_Hash plain_codec [3] ])"
  "tx_cached header_and_first_tx (Tx_Hash plain_codec [3]) = None"
  "store_Get (store header_and_first_tx)
     (getTransactionKey (prefix plain_codec) (Tx_Hash plain_codec [3])) = Inl ErrNotFound"
  "fst (GetTransaction plain_codec header_and_first_tx (Tx_Hash plain_codec [1, 2])) =
     Inr ([1, 2], 5)"
  by code_simp+

theorem GetBlock_missing_transaction_witness:
  "block_cached header_and_first_tx (Block_Hash plain_codec block5) = None
   \<and> loadHeaderWithTx plain_codec header_and_first_tx (Block_Hash plain_codec block5) =
       Inr (5, [Tx_Hash plain_codec [1, 2], Tx_Hash plain_codec [3] ])
   \<and> tx_cached header_and_first_tx (Tx_Hash plain_codec [3]) = None
   \<and> store_Get (store header_and_first_tx)
        (getTransactionKey (prefix plain_codec) (Tx_Hash plain_codec [3])) = Inl ErrNotFound
   \<and> fst (GetTransaction plain_codec header_and_first_tx (Tx_Hash plain_codec [1, 2])) =
       Inr ([1, 2], 5)
   \<and> fst (GetBlock plain_codec header_and_first_tx (Block_Hash plain_codec block5)) =
       Inl (GetTransactionError (Tx_Hash plain_codec [3]) (StoreError ErrNotFound))"
proof -
  note s = header_and_first_tx_state
  have p: "[Tx_Hash plain_codec [1, 2], Tx_Hash plain_codec [3] ] =
      [Tx_Hash plain_codec [1, 2] ] @ Tx_Hash plain_codec [3] # []"
    by simp
  show ?thesis
    using GetBlock_missing_transaction [OF s(1) s(2) p s(3) s(4)] s by simp
qed

text \<open>
  Claim C6 as stated fails when the cache serves the transactions: with the header of the
  block committed and its transactions saved but not committed, both transactions are
  absent from the store, yet \<^verbatim>\<open>GetBlock\<close> finds them in the cache and returns the whole
  block.
\<close>

theorem GetBlock_serves_cached_transactions:
  "loadHeaderWithTx plain_codec header_committed_txs_staged (Block_Hash plain_codec block5) =
     Inr (5, [Tx_Hash plain_codec [1, 2], Tx_Hash plain_codec [3] ])
   \<and> store_Get (store header_committed_txs_staged)
        (getTransactionKey (prefix plain_codec) (Tx_Hash plain_codec [1, 2])) = Inl ErrNotFound
   \<and> store_Get (store header_committed_txs_staged)
        (getTransactionKey (prefix plain_codec) (Tx_Hash plain_codec [3])) = Inl ErrNotFound
   \<and> fst (GetBlock plain_codec header_committed_txs_staged (Block_Hash plain_codec block5)) =
       Inr block5"
  by code_simp

theorem direct_and_staged_writes_witness:
  "snd (SaveVersion plain_codec cold_store 1) = None
   \<and> GetVersion plain_codec cold_store = Inl (StoreError ErrNotFound)
   \<and> GetVersion plain_codec (fst (SaveVersion plain_codec cold_store 1)) = Inr 1
   \<and> snd (SaveTransaction plain_codec cold_store [3] 5) = None
   \<and> batch (store (fst (SaveTransaction plain_codec cold_store [3] 5))) = [txOp plain_codec 5 [3] ]
   \<and> fst (GetTransaction plain_codec (fst (SaveTransaction plain_codec cold_store [3] 5))
          (Tx_Hash plain_codec [3])) = Inl (StoreError ErrNotFound)
   \<and> snd (CommitTo (fst (SaveTransaction plain_codec cold_store [3] 5))
          :: _ \<times> codec_error block_error option) = None
   \<and> fst (GetTransaction plain_codec (committed (fst (SaveTransaction plain_codec cold_store [3] 5)))
          (Tx_Hash plain_codec [3])) = Inr ([3], 5)"
proof -
  have v: "snd (SaveVersion plain_codec cold_store 1) = None"
    "GetVersion plain_codec cold_store = Inl (StoreError ErrNotFound)"
    "snd (SaveTransaction plain_codec cold_store [3] 5) = None"
    "batch (store cold_store) = []"
    "fst (GetTransaction plain_codec (fst (SaveTransaction plain_codec cold_store [3] 5))
          (Tx_Hash plain_codec [3])) = Inl (StoreError ErrNotFound)"
    "snd (CommitTo (fst (SaveTransaction plain_codec cold_store [3] 5))
          :: _ \<times> codec_error block_error option) = None"
    "fst (GetTransaction plain_codec (committed (fst (SaveTransaction plain_codec cold_store [3] 5)))
          (Tx_Hash plain_codec [3])) = Inr ([3], 5)"
    by code_simp+
  note w = direct_and_staged_writes [of plain_codec cold_store 1 block5 "[3]" 5 "Uint256_of [9]"]
  from w v(1) have gv: "GetVersion plain_codec (fst (SaveVersion plain_codec cold_store 1)) = Inr 1"
    by blast
  from w v(3) have bt: "batch (store (fst (SaveTransaction plain_codec cold_store [3] 5))) =
      batch (store cold_store) @ [txOp plain_codec 5 [3] ]"
    by blast
  show ?thesis
    using v gv bt by simp
qed



section \<open>Sequences of block store operations\<close>

text \<open>
  The same sequence of operations is run on two block stores that differ in \<open>enableCache\<close>
  only. The two runs keep the same store throughout; the run with the cache keeps the
  invariant \<open>seq_inv\<close>, from which the five reads that consult the cache return what the
  store alone returns.
\<close>


subsection \<open>The batch as a pending map\<close>



lemma pending_BatchPut [simp]:
  "pending (store_BatchPut s k v) = (pending s)(k \<mapsto> v)"
  by (simp add: pending_def store_BatchPut_def)


subsection \<open>What a step does to the store\<close>



















subsection \<open>The invariant of a disciplined sequence\<close>

lemma key_lengths [simp]:
  "length (getHeaderKey p h) = 33"
  "length (getTransactionKey p h) = 33"
  "length (getBlockHashKey p n) = 5"
  "length (getCurrentBlockKey p) = 1"
  "length (getVersionKey p) = 1"
  by (simp_all add: getHeaderKey_def getTransactionKey_def getBlockHashKey_def
      getCurrentBlockKey_def getVersionKey_def)

lemma getHeaderKey_inject [simp]:
  "getHeaderKey p a = getHeaderKey p b \<longleftrightarrow> a = b"
  by (simp add: getHeaderKey_def)






















subsection \<open>From the invariant to the reads\<close>










subsection \<open>Every operation of a disciplined sequence keeps the invariant\<close>




subsection \<open>The two runs\<close>












end
